theory Spec2Isabelle
  imports Main
begin

section \<open>The data model of scheduler.py\<close>

text \<open>
  \<^verbatim>\<open>class Time\<close>: one field \<open>mins\<close>, a Python integer (unbounded, so \<open>int\<close>).
  The constructor \<^verbatim>\<open>Time(hours=0, mins=0)\<close> stores \<open>hours * 60 + mins\<close>.
\<close>

record Time =
  mins :: int

definition Time_init :: "int \<Rightarrow> int \<Rightarrow> Time" where
  "Time_init hours m = \<lparr>mins = (hours * 60) + m\<rparr>"

text \<open>\<^verbatim>\<open>__add__\<close> and \<^verbatim>\<open>__mul__\<close> go through the constructor with \<open>hours = 0\<close>.\<close>

definition Time_add :: "Time \<Rightarrow> Time \<Rightarrow> Time" where
  "Time_add self other = Time_init 0 (mins self + mins other)"

definition Time_mul :: "Time \<Rightarrow> int \<Rightarrow> Time" where
  "Time_mul self i = Time_init 0 (mins self * i)"

definition Time_lt :: "Time \<Rightarrow> Time \<Rightarrow> bool" where
  "Time_lt self other = (mins self < mins other)"

definition Time_eq :: "Time \<Rightarrow> Time \<Rightarrow> bool" where
  "Time_eq self other = (mins self = mins other)"

definition Time_le :: "Time \<Rightarrow> Time \<Rightarrow> bool" where
  "Time_le self other = (Time_lt self other \<or> Time_eq self other)"

text \<open>
  The class defines no \<^verbatim>\<open>__ge__\<close>. Python evaluates \<^verbatim>\<open>a >= b\<close> on two \<^verbatim>\<open>Time\<close>
  objects by the reflected method of the right operand, \<^verbatim>\<open>b.__le__(a)\<close>.
\<close>

definition Time_ge :: "Time \<Rightarrow> Time \<Rightarrow> bool" where
  "Time_ge a b = Time_le b a"

text \<open>\<^verbatim>\<open>class Day\<close>: weekdays are plain strings.\<close>

definition MON :: string where "MON = ''Mon''"
definition TUES :: string where "TUES = ''Tues''"
definition WED :: string where "WED = ''Wed''"
definition THUR :: string where "THUR = ''Thur''"
definition FRI :: string where "FRI = ''Fri''"

definition DAYS :: "string list" where
  "DAYS = [MON, TUES, WED, THUR, FRI]"

text \<open>\<^verbatim>\<open>@dataclass ClassTime\<close>: a single block of class time on a day.\<close>

record ClassTime =
  day :: string
  start_time :: Time
  end_time :: Time

text \<open>
  \<^verbatim>\<open>ClassTime.overlaps\<close>, with the three local variables of the source.
\<close>

definition overlaps :: "ClassTime \<Rightarrow> ClassTime \<Rightarrow> bool" where
  "overlaps self other =
     (let same_day = (day self = day other);
          start_in_other = (Time_ge (start_time self) (start_time other)
                            \<and> Time_le (start_time self) (end_time other));
          end_in_other = (Time_ge (end_time self) (start_time other)
                          \<and> Time_le (end_time self) (end_time other))
      in same_day \<and> (start_in_other \<or> end_in_other))"

text \<open>\<^verbatim>\<open>@dataclass UnrealizedClass\<close>: a class with options for class times.\<close>

record UnrealizedClass =
  name :: string
  time_options :: "ClassTime list list"

text \<open>\<^verbatim>\<open>@dataclass Class\<close>: a realized class with set times.\<close>

record Class =
  name :: string
  times :: "ClassTime list"

text \<open>The two fixture helpers, as list comprehensions.\<close>

definition multi_day_same_time :: "string list \<Rightarrow> Time list \<Rightarrow> Time \<Rightarrow> ClassTime list list" where
  "multi_day_same_time days start_times duration =
     map (\<lambda>st. map (\<lambda>d. \<lparr>day = d, start_time = st, end_time = Time_add st duration\<rparr>) days)
       start_times"

definition multi_times :: "string \<Rightarrow> Time list \<Rightarrow> Time \<Rightarrow> ClassTime list list" where
  "multi_times d start_times duration =
     map (\<lambda>st. [\<lparr>day = d, start_time = st, end_time = Time_add st duration\<rparr>]) start_times"

section \<open>The schedule builder\<close>

text \<open>
  \<^verbatim>\<open>new_class_time_fits\<close> is three nested loops with an early \<^verbatim>\<open>return False\<close>.
  Each loop is one recursive function over the list it iterates; the value \<open>False\<close>
  is the early return, \<open>True\<close> means the loop ran to its end.
\<close>

fun fits_times :: "ClassTime list \<Rightarrow> ClassTime \<Rightarrow> bool" where
  "fits_times [] new_time = True"
| "fits_times (time # rest) new_time =
     (if overlaps time new_time then False else fits_times rest new_time)"

fun fits_schedule :: "Class list \<Rightarrow> ClassTime \<Rightarrow> bool" where
  "fits_schedule [] new_time = True"
| "fits_schedule (c # rest) new_time =
     (if fits_times (times c) new_time then fits_schedule rest new_time else False)"

fun new_class_time_fits :: "Class list \<Rightarrow> ClassTime list \<Rightarrow> bool" where
  "new_class_time_fits schedule [] = True"
| "new_class_time_fits schedule (new_time # rest) =
     (if fits_schedule schedule new_time then new_class_time_fits schedule rest else False)"

text \<open>
  \<^verbatim>\<open>get_fitting_classes\<close>: the loop over \<^verbatim>\<open>new_class.time_options\<close> threads the
  accumulator \<^verbatim>\<open>fitting_classes\<close>, which only grows at its end (\<^verbatim>\<open>append\<close>).
\<close>

fun fitting_loop :: "Class list \<Rightarrow> string \<Rightarrow> ClassTime list list \<Rightarrow> Class list \<Rightarrow> Class list" where
  "fitting_loop schedule nm [] fitting_classes = fitting_classes"
| "fitting_loop schedule nm (time_option # rest) fitting_classes =
     fitting_loop schedule nm rest
       (if new_class_time_fits schedule time_option
        then fitting_classes @ [\<lparr>name = nm, times = time_option\<rparr>]
        else fitting_classes)"

definition get_fitting_classes :: "Class list \<Rightarrow> UnrealizedClass \<Rightarrow> Class list" where
  "get_fitting_classes schedule new_class =
     fitting_loop schedule (UnrealizedClass.name new_class) (time_options new_class) []"

text \<open>
  \<^verbatim>\<open>build_schedules\<close>: the innermost loop appends \<^verbatim>\<open>schedule.copy() + [fitting_class]\<close>
  to \<^verbatim>\<open>new_schedules\<close>, the middle loop runs over the partial schedules of the previous
  stage, the outer loop over the requests, replacing \<^verbatim>\<open>schedules\<close> after each.
\<close>

fun append_fitting :: "Class list \<Rightarrow> Class list \<Rightarrow> Class list list \<Rightarrow> Class list list" where
  "append_fitting schedule [] new_schedules = new_schedules"
| "append_fitting schedule (fitting_class # rest) new_schedules =
     append_fitting schedule rest (new_schedules @ [schedule @ [fitting_class]])"

fun expand_schedules :: "UnrealizedClass \<Rightarrow> Class list list \<Rightarrow> Class list list \<Rightarrow> Class list list" where
  "expand_schedules c [] new_schedules = new_schedules"
| "expand_schedules c (schedule # rest) new_schedules =
     expand_schedules c rest
       (append_fitting schedule (get_fitting_classes schedule c) new_schedules)"

fun build_loop :: "UnrealizedClass list \<Rightarrow> Class list list \<Rightarrow> Class list list" where
  "build_loop [] schedules = schedules"
| "build_loop (c # rest) schedules = build_loop rest (expand_schedules c schedules [])"

definition build_schedules :: "UnrealizedClass list \<Rightarrow> Class list list" where
  "build_schedules class_options = build_loop class_options [[]]"

section \<open>The builder on a store of objects\<close>

text \<open>
  The functions above take Python's objects as values. Whether \<^verbatim>\<open>build_schedules\<close> changes
  an object it was given is a question about the objects themselves, so the same source is
  modelled a second time, statement by statement, on an explicit store. An object lives at
  an address; a list holds the addresses of its items, and an attribute that holds an object
  holds its address (strings and integers are immutable and stay values). The store is
  the list of all objects, the address of an object its index; a new object is put at the
  end. The objects are those of the types the source's annotations name: lists and the
  four classes \<^verbatim>\<open>Time\<close>, \<^verbatim>\<open>ClassTime\<close>, \<^verbatim>\<open>UnrealizedClass\<close> and \<^verbatim>\<open>Class\<close>.
\<close>

type_synonym addr = nat

datatype pyobj =
    PyList "addr list"
  | TimeObj int
  | ClassTimeObj string addr addr
  | UnrealizedClassObj string addr
  | ClassObj string addr

text \<open>
  What Python raises when an object is not of the kind an operation needs. \<open>NoObject\<close>
  stands for an address outside the store, which no Python reference can be.
\<close>

datatype pyerror = TypeError | AttributeError | NoObject

type_synonym heap = "pyobj list"

text \<open>
  A statement takes the store and returns its value, or the error it raised, with the
  store it leaves. An error ends the statements that follow it (\<open>pbind\<close>).
\<close>

type_synonym 'a py = "heap \<Rightarrow> (pyerror + 'a) \<times> heap"

definition pret :: "'a \<Rightarrow> 'a py" where
  "pret x h = (Inr x, h)"

definition praise :: "pyerror \<Rightarrow> 'a py" where
  "praise e h = (Inl e, h)"

definition pbind :: "'a py \<Rightarrow> ('a \<Rightarrow> 'b py) \<Rightarrow> 'b py" where
  "pbind m f h = (case m h of (Inl e, h') \<Rightarrow> (Inl e, h') | (Inr x, h') \<Rightarrow> f x h')"

text \<open>The primitive operations: reading an object, creating one, and the list methods.\<close>

definition lookup :: "addr \<Rightarrow> pyobj py" where
  "lookup a h = (if a < length h then (Inr (h ! a), h) else (Inl NoObject, h))"

definition alloc :: "pyobj \<Rightarrow> addr py" where
  "alloc v h = (Inr (length h), h @ [v])"

definition get_list :: "addr \<Rightarrow> addr list py" where
  "get_list a = pbind (lookup a) (\<lambda>v. case v of PyList xs \<Rightarrow> pret xs | _ \<Rightarrow> praise TypeError)"

text \<open>
  \<^verbatim>\<open>l.append(x)\<close> is the one operation that changes an existing object: the list at \<open>l\<close>.
  \<^verbatim>\<open>l.copy()\<close> and \<^verbatim>\<open>l + r\<close> create a new list.
\<close>

definition list_append :: "addr \<Rightarrow> addr \<Rightarrow> unit py" where
  "list_append l x =
     pbind (lookup l) (\<lambda>v. case v of
        PyList xs \<Rightarrow> (\<lambda>h. (Inr (), h[l := PyList (xs @ [x])]))
      | _ \<Rightarrow> praise AttributeError)"

definition list_copy :: "addr \<Rightarrow> addr py" where
  "list_copy l =
     pbind (lookup l) (\<lambda>v. case v of
        PyList xs \<Rightarrow> alloc (PyList xs)
      | _ \<Rightarrow> praise AttributeError)"

definition list_add :: "addr \<Rightarrow> addr \<Rightarrow> addr py" where
  "list_add l r =
     pbind (lookup l) (\<lambda>v. case v of
        PyList xs \<Rightarrow> pbind (lookup r) (\<lambda>w. case w of
            PyList ys \<Rightarrow> alloc (PyList (xs @ ys))
          | _ \<Rightarrow> praise TypeError)
      | _ \<Rightarrow> praise TypeError)"

text \<open>Reading an attribute; an object of a class without it raises \<^verbatim>\<open>AttributeError\<close>.\<close>

definition attr_mins :: "addr \<Rightarrow> int py" where
  "attr_mins a = pbind (lookup a) (\<lambda>v. case v of TimeObj m \<Rightarrow> pret m | _ \<Rightarrow> praise AttributeError)"

definition attr_day :: "addr \<Rightarrow> string py" where
  "attr_day a =
     pbind (lookup a) (\<lambda>v. case v of ClassTimeObj d s e \<Rightarrow> pret d | _ \<Rightarrow> praise AttributeError)"

definition attr_start_time :: "addr \<Rightarrow> addr py" where
  "attr_start_time a =
     pbind (lookup a) (\<lambda>v. case v of ClassTimeObj d s e \<Rightarrow> pret s | _ \<Rightarrow> praise AttributeError)"

definition attr_end_time :: "addr \<Rightarrow> addr py" where
  "attr_end_time a =
     pbind (lookup a) (\<lambda>v. case v of ClassTimeObj d s e \<Rightarrow> pret e | _ \<Rightarrow> praise AttributeError)"

definition attr_name :: "addr \<Rightarrow> string py" where
  "attr_name a =
     pbind (lookup a) (\<lambda>v. case v of
        UnrealizedClassObj n t \<Rightarrow> pret n
      | ClassObj n t \<Rightarrow> pret n
      | _ \<Rightarrow> praise AttributeError)"

definition attr_time_options :: "addr \<Rightarrow> addr py" where
  "attr_time_options a =
     pbind (lookup a) (\<lambda>v. case v of UnrealizedClassObj n t \<Rightarrow> pret t | _ \<Rightarrow> praise AttributeError)"

definition attr_times :: "addr \<Rightarrow> addr py" where
  "attr_times a =
     pbind (lookup a) (\<lambda>v. case v of ClassObj n t \<Rightarrow> pret t | _ \<Rightarrow> praise AttributeError)"

text \<open>
  A \<^verbatim>\<open>for\<close> loop runs its body on the items of the list as read when the loop starts. No
  loop of the source appends to the list it iterates (the only lists appended to are
  \<^verbatim>\<open>fitting_classes\<close> and \<^verbatim>\<open>new_schedules\<close>, each iterated only after the loop that
  appends to it has ended),
  so this is the order Python's iterator visits. \<open>for_return\<close> is a loop whose body may
  \<^verbatim>\<open>return\<close> a value (\<open>Some\<close>), which ends the loop; \<open>for_rebind\<close> is a loop whose body
  assigns a variable read by the next round (\<^verbatim>\<open>schedules = new_schedules\<close>).
\<close>

fun for_each :: "addr list \<Rightarrow> (addr \<Rightarrow> unit py) \<Rightarrow> unit py" where
  "for_each [] body = pret ()"
| "for_each (x # xs) body = pbind (body x) (\<lambda>_. for_each xs body)"

fun for_return :: "addr list \<Rightarrow> (addr \<Rightarrow> bool option py) \<Rightarrow> bool option py" where
  "for_return [] body = pret None"
| "for_return (x # xs) body =
     pbind (body x) (\<lambda>r. case r of Some v \<Rightarrow> pret (Some v) | None \<Rightarrow> for_return xs body)"

fun for_rebind :: "addr list \<Rightarrow> addr \<Rightarrow> (addr \<Rightarrow> addr \<Rightarrow> addr py) \<Rightarrow> addr py" where
  "for_rebind [] var body = pret var"
| "for_rebind (x # xs) var body = pbind (body x var) (\<lambda>var'. for_rebind xs var' body)"

text \<open>
  The methods of \<^verbatim>\<open>Time\<close> and \<^verbatim>\<open>ClassTime.overlaps\<close>, reading the attributes in the order of
  the source; \<^verbatim>\<open>or\<close> and \<^verbatim>\<open>and\<close> evaluate their right operand only when needed.
\<close>

definition Time_lt_st :: "addr \<Rightarrow> addr \<Rightarrow> bool py" where
  "Time_lt_st self other =
     pbind (attr_mins self) (\<lambda>a. pbind (attr_mins other) (\<lambda>b. pret (a < b)))"

definition Time_eq_st :: "addr \<Rightarrow> addr \<Rightarrow> bool py" where
  "Time_eq_st self other =
     pbind (attr_mins self) (\<lambda>a. pbind (attr_mins other) (\<lambda>b. pret (a = b)))"

definition Time_le_st :: "addr \<Rightarrow> addr \<Rightarrow> bool py" where
  "Time_le_st self other =
     pbind (Time_lt_st self other) (\<lambda>lt. if lt then pret True else Time_eq_st self other)"

definition Time_ge_st :: "addr \<Rightarrow> addr \<Rightarrow> bool py" where
  "Time_ge_st a b = Time_le_st b a"

definition overlaps_st :: "addr \<Rightarrow> addr \<Rightarrow> bool py" where
  "overlaps_st self other =
     pbind (attr_day self) (\<lambda>d1. pbind (attr_day other) (\<lambda>d2.
     pbind (attr_start_time self) (\<lambda>s1. pbind (attr_start_time other) (\<lambda>s2.
     pbind (Time_ge_st s1 s2) (\<lambda>ge1.
     pbind (if ge1
            then pbind (attr_start_time self) (\<lambda>s1'. pbind (attr_end_time other) (\<lambda>e2.
                   Time_le_st s1' e2))
            else pret False) (\<lambda>start_in_other.
     pbind (attr_end_time self) (\<lambda>e1. pbind (attr_start_time other) (\<lambda>s2'.
     pbind (Time_ge_st e1 s2') (\<lambda>ge2.
     pbind (if ge2
            then pbind (attr_end_time self) (\<lambda>e1'. pbind (attr_end_time other) (\<lambda>e2'.
                   Time_le_st e1' e2'))
            else pret False) (\<lambda>end_in_other.
     pret (d1 = d2 \<and> (start_in_other \<or> end_in_other))))))))))))"

text \<open>The three functions of the builder.\<close>

definition new_class_time_fits_st :: "addr \<Rightarrow> addr \<Rightarrow> bool py" where
  "new_class_time_fits_st schedule new_times =
     pbind (get_list new_times) (\<lambda>nts.
     pbind (for_return nts (\<lambda>new_time.
              pbind (get_list schedule) (\<lambda>cs.
              for_return cs (\<lambda>c.
                pbind (attr_times c) (\<lambda>c_times.
                pbind (get_list c_times) (\<lambda>ts.
                for_return ts (\<lambda>time.
                  pbind (overlaps_st time new_time) (\<lambda>b.
                  pret (if b then Some False else None)))))))))
       (\<lambda>r. pret (case r of Some v \<Rightarrow> v | None \<Rightarrow> True)))"

definition get_fitting_classes_st :: "addr \<Rightarrow> addr \<Rightarrow> addr py" where
  "get_fitting_classes_st schedule new_class =
     pbind (alloc (PyList [])) (\<lambda>fitting_classes.
     pbind (attr_time_options new_class) (\<lambda>opts.
     pbind (get_list opts) (\<lambda>os.
     pbind (for_each os (\<lambda>time_option.
              pbind (new_class_time_fits_st schedule time_option) (\<lambda>fits.
              if fits
              then pbind (attr_name new_class) (\<lambda>n.
                   pbind (alloc (ClassObj n time_option)) (\<lambda>cl.
                   list_append fitting_classes cl))
              else pret ())))
       (\<lambda>_. pret fitting_classes))))"

definition build_schedules_st :: "addr \<Rightarrow> addr py" where
  "build_schedules_st class_options =
     pbind (alloc (PyList [])) (\<lambda>empty.
     pbind (alloc (PyList [empty])) (\<lambda>schedules0.
     pbind (get_list class_options) (\<lambda>cs.
     for_rebind cs schedules0 (\<lambda>c schedules.
       pbind (alloc (PyList [])) (\<lambda>new_schedules.
       pbind (get_list schedules) (\<lambda>ss.
       pbind (for_each ss (\<lambda>schedule.
                pbind (get_fitting_classes_st schedule c) (\<lambda>fitting_classes.
                pbind (get_list fitting_classes) (\<lambda>fcs.
                for_each fcs (\<lambda>fitting_class.
                  pbind (list_copy schedule) (\<lambda>cp.
                  pbind (alloc (PyList [fitting_class])) (\<lambda>single.
                  pbind (list_add cp single) (\<lambda>extended.
                  list_append new_schedules extended))))))))
         (\<lambda>_. pret new_schedules)))))))"

subsection \<open>Reading values off the store\<close>

text \<open>
  The value an address stands for: the object there, with the objects it refers to,
  read as a value of the data model. \<open>None\<close> when the address is outside the store or
  an object on the way is of the wrong kind.
\<close>

definition Time_at :: "heap \<Rightarrow> addr \<Rightarrow> Time option" where
  "Time_at h a =
     (if a < length h then (case h ! a of TimeObj m \<Rightarrow> Some \<lparr>mins = m\<rparr> | _ \<Rightarrow> None) else None)"

definition ClassTime_at :: "heap \<Rightarrow> addr \<Rightarrow> ClassTime option" where
  "ClassTime_at h a =
     (if a < length h
      then (case h ! a of
              ClassTimeObj d s e \<Rightarrow>
                (case (Time_at h s, Time_at h e) of
                   (Some st, Some et) \<Rightarrow> Some \<lparr>day = d, start_time = st, end_time = et\<rparr>
                 | _ \<Rightarrow> None)
            | _ \<Rightarrow> None)
      else None)"

definition list_at :: "(heap \<Rightarrow> addr \<Rightarrow> 'v option) \<Rightarrow> heap \<Rightarrow> addr \<Rightarrow> 'v list option" where
  "list_at item_at h a =
     (if a < length h
      then (case h ! a of PyList xs \<Rightarrow> those (map (item_at h) xs) | _ \<Rightarrow> None)
      else None)"

definition UnrealizedClass_at :: "heap \<Rightarrow> addr \<Rightarrow> UnrealizedClass option" where
  "UnrealizedClass_at h a =
     (if a < length h
      then (case h ! a of
              UnrealizedClassObj n t \<Rightarrow>
                map_option (\<lambda>os. \<lparr>UnrealizedClass.name = n, time_options = os\<rparr>)
                  (list_at (list_at ClassTime_at) h t)
            | _ \<Rightarrow> None)
      else None)"

definition Class_at :: "heap \<Rightarrow> addr \<Rightarrow> Class option" where
  "Class_at h a =
     (if a < length h
      then (case h ! a of
              ClassObj n t \<Rightarrow>
                map_option (\<lambda>ts. \<lparr>name = n, times = ts\<rparr>) (list_at ClassTime_at h t)
            | _ \<Rightarrow> None)
      else None)"


text \<open>
  \<open>keeps h h'\<close>: every object of the store \<open>h\<close> is in \<open>h'\<close>, at its address and unchanged;
  \<open>keeps_but l h h'\<close> allows the object at \<open>l\<close> to differ.
\<close>

definition keeps :: "heap \<Rightarrow> heap \<Rightarrow> bool" where
  "keeps h h' \<longleftrightarrow> length h \<le> length h' \<and> (\<forall>a < length h. h' ! a = h ! a)"

definition keeps_but :: "addr \<Rightarrow> heap \<Rightarrow> heap \<Rightarrow> bool" where
  "keeps_but l h h' \<longleftrightarrow> length h \<le> length h' \<and> (\<forall>a < length h. a \<noteq> l \<longrightarrow> h' ! a = h ! a)"

text \<open>
  What the builder creates, relative to the store \<open>b\<close> at the call: a \<open>Class\<close> object of
  the store \<open>h\<close> whose \<open>times\<close> is an option list of \<open>b\<close>, a list of such objects (a
  schedule), and a list of schedules.
\<close>

definition class_rep :: "heap \<Rightarrow> heap \<Rightarrow> addr \<Rightarrow> Class \<Rightarrow> bool" where
  "class_rep b h a c \<longleftrightarrow>
     a < length h \<and> (\<exists>t. h ! a = ClassObj (name c) t \<and> list_at ClassTime_at b t = Some (times c))"

definition sched_rep :: "heap \<Rightarrow> heap \<Rightarrow> addr \<Rightarrow> Class list \<Rightarrow> bool" where
  "sched_rep b h a s \<longleftrightarrow>
     a < length h \<and> (\<exists>cls. h ! a = PyList cls \<and> list_all2 (class_rep b h) cls s)"

definition scheds_rep :: "heap \<Rightarrow> heap \<Rightarrow> addr \<Rightarrow> Class list list \<Rightarrow> bool" where
  "scheds_rep b h a ss \<longleftrightarrow>
     a < length h \<and> (\<exists>sl. h ! a = PyList sl \<and> list_all2 (sched_rep b h) sl ss)"

section \<open>Notions used to state the properties\<close>

text \<open>
  The partial schedules one stage produces from one partial schedule: the body of the
  middle loop of \<^verbatim>\<open>build_schedules\<close>, written as a list comprehension.
\<close>

definition extensions :: "UnrealizedClass \<Rightarrow> Class list \<Rightarrow> Class list list" where
  "extensions c schedule = map (\<lambda>fc. schedule @ [fc]) (get_fitting_classes schedule c)"

text \<open>
  A selection \<open>c\<close> realizes the request \<open>r\<close>: it carries the request's name and one of
  its options. A combination that selects exactly one option per request is a list of
  selections related to the list of requests position by position
  (\<open>list_all2 selects\<close>).
\<close>

definition selects :: "Class \<Rightarrow> UnrealizedClass \<Rightarrow> bool" where
  "selects c r \<longleftrightarrow> name c = UnrealizedClass.name r \<and> times c \<in> set (time_options r)"

text \<open>
  No interval of an earlier selection of the schedule overlaps, as the receiver of
  \<^verbatim>\<open>overlaps\<close>, an interval of a later one: the one argument order that
  \<^verbatim>\<open>new_class_time_fits\<close> tests.
\<close>

definition earlier_clear :: "Class list \<Rightarrow> bool" where
  "earlier_clear s \<longleftrightarrow>
     (\<forall>j < length s. \<forall>i < j. \<forall>t \<in> set (times (s ! i)). \<forall>u \<in> set (times (s ! j)).
        \<not> overlaps t u)"


text \<open>
  The statement \<open>m\<close>, run on a store with at least \<open>n\<close> objects, leaves the first \<open>n\<close>
  objects as they were and removes none; a value it returns satisfies \<open>Q\<close>.
\<close>

definition frame :: "nat \<Rightarrow> 'a py \<Rightarrow> ('a \<Rightarrow> bool) \<Rightarrow> bool" where
  "frame n m Q \<longleftrightarrow>
     (\<forall>h. n \<le> length h \<longrightarrow>
        (case m h of (r, h') \<Rightarrow>
           length h \<le> length h' \<and> take n h' = take n h
           \<and> (case r of Inl e \<Rightarrow> True | Inr x \<Rightarrow> Q x)))"

section \<open>The loops as list comprehensions\<close>

lemma overlaps_iff:
  "overlaps a b \<longleftrightarrow> day a = day b \<and>
     ((mins (start_time b) \<le> mins (start_time a) \<and> mins (start_time a) \<le> mins (end_time b))
      \<or> (mins (start_time b) \<le> mins (end_time a) \<and> mins (end_time a) \<le> mins (end_time b)))"
  by (auto simp: overlaps_def Time_ge_def Time_le_def Time_lt_def Time_eq_def Let_def)

text \<open>
  The test asks whether an endpoint of the receiver lies in the argument. It misses
  exactly the receiver that strictly contains its argument; in either order, on
  intervals with start \<open>\<le>\<close> end, it is the intersection of the closed ranges.
\<close>

lemma overlaps_misses_containment:
  assumes "day a = day b"
    and "mins (start_time a) < mins (start_time b)"
    and "mins (start_time b) \<le> mins (end_time b)"
    and "mins (end_time b) < mins (end_time a)"
  shows "\<not> overlaps a b \<and> overlaps b a"
  using assms by (auto simp: overlaps_iff)

lemma overlaps_either_order_iff:
  assumes "mins (start_time a) \<le> mins (end_time a)" and "mins (start_time b) \<le> mins (end_time b)"
  shows "overlaps a b \<or> overlaps b a \<longleftrightarrow>
         day a = day b \<and> mins (start_time a) \<le> mins (end_time b)
         \<and> mins (start_time b) \<le> mins (end_time a)"
  using assms by (auto simp: overlaps_iff)

lemma overlaps_symmetric_unless_nested:
  assumes "mins (start_time a) \<le> mins (end_time a)" and "mins (start_time b) \<le> mins (end_time b)"
    and "\<not> (mins (start_time a) < mins (start_time b) \<and> mins (end_time b) < mins (end_time a))"
    and "\<not> (mins (start_time b) < mins (start_time a) \<and> mins (end_time a) < mins (end_time b))"
  shows "overlaps a b = overlaps b a"
  using assms by (auto simp: overlaps_iff)

lemma fits_times_iff: "fits_times ts new_time \<longleftrightarrow> (\<forall>t \<in> set ts. \<not> overlaps t new_time)"
  by (induction ts) auto

lemma fits_schedule_iff:
  "fits_schedule schedule new_time \<longleftrightarrow>
     (\<forall>c \<in> set schedule. \<forall>t \<in> set (times c). \<not> overlaps t new_time)"
  by (induction schedule) (auto simp: fits_times_iff)

lemma new_class_time_fits_iff:
  "new_class_time_fits schedule new_times \<longleftrightarrow>
     (\<forall>new_time \<in> set new_times. \<forall>c \<in> set schedule. \<forall>t \<in> set (times c).
        \<not> overlaps t new_time)"
  by (induction new_times) (auto simp: fits_schedule_iff)

lemma fitting_loop_eq:
  "fitting_loop schedule nm opts acc =
     acc @ map (\<lambda>time_option. \<lparr>name = nm, times = time_option\<rparr>)
             (filter (new_class_time_fits schedule) opts)"
  by (induction opts arbitrary: acc) auto

lemma get_fitting_classes_eq:
  "get_fitting_classes schedule c =
     map (\<lambda>time_option. \<lparr>name = UnrealizedClass.name c, times = time_option\<rparr>)
       (filter (new_class_time_fits schedule) (time_options c))"
  by (simp add: get_fitting_classes_def fitting_loop_eq)

lemma append_fitting_eq:
  "append_fitting schedule fcs acc = acc @ map (\<lambda>fc. schedule @ [fc]) fcs"
  by (induction fcs arbitrary: acc) auto

lemma expand_schedules_eq:
  "expand_schedules c schedules acc = acc @ concat (map (extensions c) schedules)"
  by (induction schedules arbitrary: acc) (auto simp: append_fitting_eq extensions_def)

lemma build_loop_append:
  "build_loop (cs @ ds) schedules = build_loop ds (build_loop cs schedules)"
  by (induction cs arbitrary: schedules) auto

lemma build_schedules_snoc:
  "build_schedules (cs @ [c]) = concat (map (extensions c) (build_schedules cs))"
  by (simp add: build_schedules_def build_loop_append expand_schedules_eq)

lemma build_schedules_Nil: "build_schedules [] = [[]]"
  by (simp add: build_schedules_def)


lemma earlier_clear_snoc:
  "earlier_clear (p @ [c]) \<longleftrightarrow> earlier_clear p \<and> new_class_time_fits p (times c)"
proof -
  have fits: "new_class_time_fits p (times c) \<longleftrightarrow>
      (\<forall>i < length p. \<forall>t \<in> set (times (p ! i)). \<forall>u \<in> set (times c). \<not> overlaps t u)"
    unfolding new_class_time_fits_iff by (metis in_set_conv_nth)
  show ?thesis
    unfolding fits earlier_clear_def
    by (auto simp: less_Suc_eq nth_append)
qed

lemma in_extensions_iff:
  "s \<in> set (extensions r p) \<longleftrightarrow>
     (\<exists>c. s = p @ [c] \<and> selects c r \<and> new_class_time_fits p (times c))"
proof
  assume "s \<in> set (extensions r p)"
  then show "\<exists>c. s = p @ [c] \<and> selects c r \<and> new_class_time_fits p (times c)"
    by (auto simp: extensions_def get_fitting_classes_eq selects_def)
next
  assume "\<exists>c. s = p @ [c] \<and> selects c r \<and> new_class_time_fits p (times c)"
  then obtain c where c: "s = p @ [c]" "selects c r" "new_class_time_fits p (times c)"
    by blast
  have "c = \<lparr>name = UnrealizedClass.name r, times = times c\<rparr>"
    using c(2) by (simp add: selects_def)
  with c show "s \<in> set (extensions r p)"
    by (auto simp: extensions_def get_fitting_classes_eq selects_def intro!: image_eqI [where x = "times c"])
qed

lemma list_all2_snoc2:
  "list_all2 P s (rs @ [r]) \<longleftrightarrow> (\<exists>p c. s = p @ [c] \<and> list_all2 P p rs \<and> P c r)"
proof
  assume "list_all2 P s (rs @ [r])"
  then show "\<exists>p c. s = p @ [c] \<and> list_all2 P p rs \<and> P c r"
    by (auto simp: list_all2_append2 list_all2_Cons2)
next
  assume "\<exists>p c. s = p @ [c] \<and> list_all2 P p rs \<and> P c r"
  then obtain p c where "s = p @ [c]" "list_all2 P p rs" "P c r" by blast
  then show "list_all2 P s (rs @ [r])"
    by (simp add: list_all2_appendI)
qed

lemma in_build_schedules_iff:
  "s \<in> set (build_schedules rs) \<longleftrightarrow> list_all2 selects s rs \<and> earlier_clear s"
proof (induction rs arbitrary: s rule: rev_induct)
  case Nil
  show ?case by (auto simp: build_schedules_Nil earlier_clear_def)
next
  case (snoc r rs)
  have "s \<in> set (build_schedules (rs @ [r])) \<longleftrightarrow>
        (\<exists>p c. s = p @ [c] \<and> p \<in> set (build_schedules rs) \<and> selects c r
               \<and> new_class_time_fits p (times c))"
    by (auto simp: build_schedules_snoc in_extensions_iff)
  also have "\<dots> \<longleftrightarrow> (\<exists>p c. s = p @ [c] \<and> list_all2 selects p rs \<and> selects c r
               \<and> earlier_clear (p @ [c]))"
    by (auto simp: snoc.IH earlier_clear_snoc)
  also have "\<dots> \<longleftrightarrow> list_all2 selects s (rs @ [r]) \<and> earlier_clear s"
    by (auto simp: list_all2_snoc2)
  finally show ?case .
qed






lemma length_extensions: "length (extensions r p) \<le> length (time_options r)"
  by (simp add: extensions_def get_fitting_classes_eq)

lemma length_concat_extensions:
  "length (concat (map (extensions r) ss)) \<le> length ss * length (time_options r)"
proof (induction ss)
  case Nil
  show ?case by simp
next
  case (Cons p ss)
  then show ?case using length_extensions [of r p] by simp
qed

lemma expand_schedules_no_options:
  "time_options r = [] \<Longrightarrow> concat (map (extensions r) ss) = []"
  by (simp add: extensions_def get_fitting_classes_eq)

lemma build_loop_Nil: "build_loop cs [] = []"
  by (induction cs) simp_all

lemma earlier_clear_update_empty:
  assumes "earlier_clear s"
  shows "earlier_clear (s[k := \<lparr>name = nm, times = []\<rparr>])"
  unfolding earlier_clear_def
proof (intro allI impI ballI)
  fix j i t u
  let ?s' = "s[k := \<lparr>name = nm, times = []\<rparr>]"
  assume j: "j < length ?s'" and i: "i < j"
    and t: "t \<in> set (times (?s' ! i))" and u: "u \<in> set (times (?s' ! j))"
  from j i have lj: "j < length s" and li: "i < length s" by simp_all
  from t li have ik: "i \<noteq> k" by (auto simp: nth_list_update)
  from u lj have jk: "j \<noteq> k" by (auto simp: nth_list_update)
  from t ik have "t \<in> set (times (s ! i))" by simp
  moreover from u jk have "u \<in> set (times (s ! j))" by simp
  ultimately show "\<not> overlaps t u"
    using assms lj i unfolding earlier_clear_def by blast
qed

lemma selects_empty_option:
  "[] \<in> set (time_options r) \<Longrightarrow> selects \<lparr>name = UnrealizedClass.name r, times = []\<rparr> r"
  by (simp add: selects_def)

section \<open>What a statement leaves unchanged\<close>

named_theorems frame_intros

lemma frame_pret: "Q x \<Longrightarrow> frame n (pret x) Q"
  by (simp add: frame_def pret_def)

lemma frame_pret_True [frame_intros]: "frame n (pret x) (\<lambda>_. True)"
  by (simp add: frame_pret)

lemma frame_praise [frame_intros]: "frame n (praise e) Q"
  by (simp add: frame_def praise_def)

lemma frame_pbind:
  assumes "frame n m P" and "\<And>x. P x \<Longrightarrow> frame n (f x) Q"
  shows "frame n (pbind m f) Q"
  unfolding frame_def
proof (intro allI impI)
  fix h :: heap
  assume n: "n \<le> length h"
  obtain r h1 where m: "m h = (r, h1)" by (cases "m h")
  from assms(1) n m have 1: "length h \<le> length h1" "take n h1 = take n h"
    and P: "case r of Inl e \<Rightarrow> True | Inr x \<Rightarrow> P x"
    by (auto simp: frame_def)
  show "case pbind m f h of (r, h') \<Rightarrow>
           length h \<le> length h' \<and> take n h' = take n h
           \<and> (case r of Inl e \<Rightarrow> True | Inr x \<Rightarrow> Q x)"
  proof (cases r)
    case (Inl e)
    with m 1 show ?thesis by (simp add: pbind_def)
  next
    case (Inr x)
    with P have "frame n (f x) Q" by (simp add: assms(2))
    moreover from n 1 have "n \<le> length h1" by simp
    ultimately have "case f x h1 of (r, h') \<Rightarrow>
           length h1 \<le> length h' \<and> take n h' = take n h1
           \<and> (case r of Inl e \<Rightarrow> True | Inr x \<Rightarrow> Q x)"
      by (simp add: frame_def)
    with m Inr 1 show ?thesis by (auto simp: pbind_def split: prod.splits)
  qed
qed

lemma frame_pbind_True:
  "frame n m (\<lambda>_. True) \<Longrightarrow> (\<And>x. frame n (f x) Q) \<Longrightarrow> frame n (pbind m f) Q"
  by (rule frame_pbind)

lemma frame_pbind_fresh:
  "frame n m (\<lambda>a. n \<le> a) \<Longrightarrow> (\<And>a. n \<le> a \<Longrightarrow> frame n (f a) Q)
   \<Longrightarrow> frame n (pbind m f) Q"
  by (rule frame_pbind)

lemma frame_update: "n \<le> l \<Longrightarrow> frame n (\<lambda>h. (Inr (), h[l := v])) (\<lambda>_. True)"
  by (simp add: frame_def)

lemma frame_weaken: "frame n m P \<Longrightarrow> (\<And>x. P x \<Longrightarrow> Q x) \<Longrightarrow> frame n m Q"
  by (fastforce simp: frame_def split: prod.splits sum.splits)

lemma frame_lookup [frame_intros]: "frame n (lookup a) (\<lambda>_. True)"
  by (simp add: frame_def lookup_def)

lemma frame_alloc: "frame n (alloc v) (\<lambda>a. n \<le> a)"
  by (simp add: frame_def alloc_def)

lemma frame_get_list [frame_intros]: "frame n (get_list a) (\<lambda>_. True)"
  unfolding get_list_def
  by (rule frame_pbind [OF frame_lookup]) (simp add: frame_intros split: pyobj.splits)

lemma frame_list_append [frame_intros]: "n \<le> l \<Longrightarrow> frame n (list_append l x) (\<lambda>_. True)"
  unfolding list_append_def
  by (rule frame_pbind [OF frame_lookup])
     (simp add: frame_intros frame_update split: pyobj.splits)

lemma frame_list_copy: "frame n (list_copy l) (\<lambda>a. n \<le> a)"
  unfolding list_copy_def
  by (rule frame_pbind [OF frame_lookup])
     (simp add: frame_intros frame_alloc split: pyobj.splits)

lemma frame_list_add: "frame n (list_add l r) (\<lambda>a. n \<le> a)"
  unfolding list_add_def
  by (rule frame_pbind [OF frame_lookup])
     (auto simp: frame_intros frame_alloc split: pyobj.splits intro!: frame_pbind_True [OF frame_lookup])

lemma frame_attr_mins [frame_intros]: "frame n (attr_mins a) (\<lambda>_. True)"
  unfolding attr_mins_def
  by (rule frame_pbind [OF frame_lookup]) (simp add: frame_intros split: pyobj.splits)

lemma frame_attr_day [frame_intros]: "frame n (attr_day a) (\<lambda>_. True)"
  unfolding attr_day_def
  by (rule frame_pbind [OF frame_lookup]) (simp add: frame_intros split: pyobj.splits)

lemma frame_attr_start_time [frame_intros]: "frame n (attr_start_time a) (\<lambda>_. True)"
  unfolding attr_start_time_def
  by (rule frame_pbind [OF frame_lookup]) (simp add: frame_intros split: pyobj.splits)

lemma frame_attr_end_time [frame_intros]: "frame n (attr_end_time a) (\<lambda>_. True)"
  unfolding attr_end_time_def
  by (rule frame_pbind [OF frame_lookup]) (simp add: frame_intros split: pyobj.splits)

lemma frame_attr_name [frame_intros]: "frame n (attr_name a) (\<lambda>_. True)"
  unfolding attr_name_def
  by (rule frame_pbind [OF frame_lookup]) (simp add: frame_intros split: pyobj.splits)

lemma frame_attr_time_options [frame_intros]: "frame n (attr_time_options a) (\<lambda>_. True)"
  unfolding attr_time_options_def
  by (rule frame_pbind [OF frame_lookup]) (simp add: frame_intros split: pyobj.splits)

lemma frame_attr_times [frame_intros]: "frame n (attr_times a) (\<lambda>_. True)"
  unfolding attr_times_def
  by (rule frame_pbind [OF frame_lookup]) (simp add: frame_intros split: pyobj.splits)

lemma frame_for_each [frame_intros]:
  "(\<And>x. frame n (body x) (\<lambda>_. True)) \<Longrightarrow> frame n (for_each xs body) (\<lambda>_. True)"
  by (induction xs) (auto intro!: frame_pbind_True frame_intros)

lemma frame_for_return [frame_intros]:
  "(\<And>x. frame n (body x) (\<lambda>_. True)) \<Longrightarrow> frame n (for_return xs body) (\<lambda>_. True)"
proof (induction xs)
  case Nil
  show ?case by (simp add: frame_intros)
next
  case (Cons x xs)
  show ?case
    unfolding for_return.simps
  proof (rule frame_pbind [OF Cons.prems])
    fix r :: "bool option"
    show "frame n (case r of Some v \<Rightarrow> pret (Some v) | None \<Rightarrow> for_return xs body) (\<lambda>_. True)"
      by (cases r) (simp_all add: frame_intros Cons.IH Cons.prems)
  qed
qed

lemma frame_for_rebind [frame_intros]:
  "(\<And>x v. frame n (body x v) (\<lambda>_. True)) \<Longrightarrow> frame n (for_rebind xs var body) (\<lambda>_. True)"
  by (induction xs arbitrary: var) (auto intro!: frame_pbind_True frame_intros)

lemma frame_Time_lt_st [frame_intros]: "frame n (Time_lt_st a b) (\<lambda>_. True)"
  unfolding Time_lt_st_def by (intro frame_pbind_True frame_intros)

lemma frame_Time_eq_st [frame_intros]: "frame n (Time_eq_st a b) (\<lambda>_. True)"
  unfolding Time_eq_st_def by (intro frame_pbind_True frame_intros)

lemma frame_if:
  "(b \<Longrightarrow> frame n m Q) \<Longrightarrow> (\<not> b \<Longrightarrow> frame n m' Q) \<Longrightarrow> frame n (if b then m else m') Q"
  by simp

lemma frame_Time_le_st [frame_intros]: "frame n (Time_le_st a b) (\<lambda>_. True)"
  unfolding Time_le_st_def by (intro frame_pbind_True frame_if frame_intros)

lemma frame_Time_ge_st [frame_intros]: "frame n (Time_ge_st a b) (\<lambda>_. True)"
  unfolding Time_ge_st_def by (rule frame_Time_le_st)

lemma frame_overlaps_st [frame_intros]: "frame n (overlaps_st a b) (\<lambda>_. True)"
  unfolding overlaps_st_def by (intro frame_pbind_True frame_if frame_intros)

lemma frame_new_class_time_fits_st [frame_intros]:
  "frame n (new_class_time_fits_st schedule new_times) (\<lambda>_. True)"
  unfolding new_class_time_fits_st_def by (intro frame_pbind_True frame_if frame_intros)

lemma frame_get_fitting_classes_st:
  "frame n (get_fitting_classes_st schedule new_class) (\<lambda>a. n \<le> a)"
  unfolding get_fitting_classes_st_def
proof (rule frame_pbind_fresh [OF frame_alloc])
  fix fitting_classes :: addr
  assume fresh: "n \<le> fitting_classes"
  have body: "frame n
       (pbind (new_class_time_fits_st schedule time_option) (\<lambda>fits.
          if fits
          then pbind (attr_name new_class) (\<lambda>nm.
               pbind (alloc (ClassObj nm time_option)) (\<lambda>cl.
               list_append fitting_classes cl))
          else pret ()))
       (\<lambda>_. True)" for time_option
    by (intro frame_pbind_True frame_if frame_intros frame_pbind_fresh [OF frame_alloc] fresh)
  show "frame n
     (pbind (attr_time_options new_class) (\<lambda>opts.
      pbind (get_list opts) (\<lambda>os.
      pbind (for_each os (\<lambda>time_option.
               pbind (new_class_time_fits_st schedule time_option) (\<lambda>fits.
               if fits
               then pbind (attr_name new_class) (\<lambda>n.
                    pbind (alloc (ClassObj n time_option)) (\<lambda>cl.
                    list_append fitting_classes cl))
               else pret ())))
        (\<lambda>_. pret fitting_classes))))
     (\<lambda>a. n \<le> a)"
    by (intro frame_pbind_True frame_intros body frame_pret fresh)
qed

lemma frame_build_schedules_st:
  "frame n (build_schedules_st class_options) (\<lambda>_. True)"
  unfolding build_schedules_st_def
proof (rule frame_pbind_fresh [OF frame_alloc], rule frame_pbind_fresh [OF frame_alloc],
    rule frame_pbind_True [OF frame_get_list], rule frame_for_rebind)
  fix c schedules :: addr
  show "frame n
     (pbind (alloc (PyList [])) (\<lambda>new_schedules.
      pbind (get_list schedules) (\<lambda>ss.
      pbind (for_each ss (\<lambda>schedule.
               pbind (get_fitting_classes_st schedule c) (\<lambda>fitting_classes.
               pbind (get_list fitting_classes) (\<lambda>fcs.
               for_each fcs (\<lambda>fitting_class.
                 pbind (list_copy schedule) (\<lambda>cp.
                 pbind (alloc (PyList [fitting_class])) (\<lambda>single.
                 pbind (list_add cp single) (\<lambda>extended.
                 list_append new_schedules extended))))))))
        (\<lambda>_. pret new_schedules))))
     (\<lambda>_. True)"
  proof (rule frame_pbind_fresh [OF frame_alloc])
    fix new_schedules :: addr
    assume fresh: "n \<le> new_schedules"
    show "frame n
       (pbind (get_list schedules) (\<lambda>ss.
        pbind (for_each ss (\<lambda>schedule.
                 pbind (get_fitting_classes_st schedule c) (\<lambda>fitting_classes.
                 pbind (get_list fitting_classes) (\<lambda>fcs.
                 for_each fcs (\<lambda>fitting_class.
                   pbind (list_copy schedule) (\<lambda>cp.
                   pbind (alloc (PyList [fitting_class])) (\<lambda>single.
                   pbind (list_add cp single) (\<lambda>extended.
                   list_append new_schedules extended))))))))
          (\<lambda>_. pret new_schedules)))
       (\<lambda>_. True)"
      by (intro frame_pbind_True frame_intros fresh TrueI
          frame_pbind_True [OF frame_weaken [OF frame_get_fitting_classes_st]]
          frame_pbind_True [OF frame_weaken [OF frame_list_copy]]
          frame_pbind_True [OF frame_weaken [OF frame_alloc]]
          frame_pbind_True [OF frame_weaken [OF frame_list_add]])
  qed
qed

lemmas store_defs = build_schedules_st_def get_fitting_classes_st_def new_class_time_fits_st_def
  overlaps_st_def Time_ge_st_def Time_le_st_def Time_lt_st_def Time_eq_st_def
  attr_mins_def attr_day_def attr_start_time_def attr_end_time_def attr_name_def
  attr_time_options_def attr_times_def list_add_def list_copy_def list_append_def get_list_def
  alloc_def lookup_def pbind_def pret_def praise_def

section \<open>The builder on the store computes the builder on values\<close>

lemma those_map_eq_Some:
  "those (map f xs) = Some ys \<longleftrightarrow> list_all2 (\<lambda>x y. f x = Some y) xs ys"
proof (induction xs arbitrary: ys)
  case Nil
  show ?case by auto
next
  case (Cons x xs)
  show ?case
    by (cases ys) (auto simp: Cons.IH split: option.splits)
qed

lemma list_at_Some_iff:
  "list_at item_at h a = Some ys \<longleftrightarrow>
     a < length h \<and> (\<exists>xs. h ! a = PyList xs \<and> list_all2 (\<lambda>x y. item_at h x = Some y) xs ys)"
  by (auto simp: list_at_def those_map_eq_Some split: pyobj.splits)

lemma Time_at_Some_iff:
  "Time_at h a = Some x \<longleftrightarrow> a < length h \<and> h ! a = TimeObj (mins x)"
  by (cases x) (auto simp: Time_at_def split: pyobj.splits)

lemma ClassTime_at_Some_iff:
  "ClassTime_at h a = Some x \<longleftrightarrow>
     a < length h \<and> (\<exists>s e. h ! a = ClassTimeObj (day x) s e
        \<and> Time_at h s = Some (start_time x) \<and> Time_at h e = Some (end_time x))"
  by (cases x) (auto simp: ClassTime_at_def split: pyobj.splits option.splits)

lemma UnrealizedClass_at_Some_iff:
  "UnrealizedClass_at h a = Some r \<longleftrightarrow>
     a < length h \<and> (\<exists>t. h ! a = UnrealizedClassObj (UnrealizedClass.name r) t
        \<and> list_at (list_at ClassTime_at) h t = Some (time_options r))"
  by (cases r) (auto simp: UnrealizedClass_at_def split: pyobj.splits)

lemma Class_at_Some_iff:
  "Class_at h a = Some c \<longleftrightarrow>
     a < length h \<and> (\<exists>t. h ! a = ClassObj (name c) t
        \<and> list_at ClassTime_at h t = Some (times c))"
  by (cases c) (auto simp: Class_at_def split: pyobj.splits)

lemma pbind_Inr: "m h = (Inr x, h') \<Longrightarrow> pbind m f h = f x h'"
  by (simp add: pbind_def)

lemma lookup_ok: "a < length h \<Longrightarrow> lookup a h = (Inr (h ! a), h)"
  by (simp add: lookup_def)

lemma get_list_ok: "a < length h \<Longrightarrow> h ! a = PyList xs \<Longrightarrow> get_list a h = (Inr xs, h)"
  by (simp add: get_list_def pbind_def lookup_def pret_def)

lemma attr_mins_ok: "Time_at h a = Some x \<Longrightarrow> attr_mins a h = (Inr (mins x), h)"
  by (simp add: Time_at_Some_iff attr_mins_def pbind_def lookup_def pret_def)

lemma Time_lt_st_ok:
  "Time_at h a = Some x \<Longrightarrow> Time_at h b = Some y \<Longrightarrow> Time_lt_st a b h = (Inr (Time_lt x y), h)"
  by (simp add: Time_lt_st_def pbind_def attr_mins_ok pret_def Time_lt_def)

lemma Time_eq_st_ok:
  "Time_at h a = Some x \<Longrightarrow> Time_at h b = Some y \<Longrightarrow> Time_eq_st a b h = (Inr (Time_eq x y), h)"
  by (simp add: Time_eq_st_def pbind_def attr_mins_ok pret_def Time_eq_def)

lemma Time_le_st_ok:
  "Time_at h a = Some x \<Longrightarrow> Time_at h b = Some y \<Longrightarrow> Time_le_st a b h = (Inr (Time_le x y), h)"
  by (simp add: Time_le_st_def pbind_def Time_lt_st_ok Time_eq_st_ok pret_def Time_le_def)

lemma Time_ge_st_ok:
  "Time_at h a = Some x \<Longrightarrow> Time_at h b = Some y \<Longrightarrow> Time_ge_st a b h = (Inr (Time_ge x y), h)"
  by (simp add: Time_ge_st_def Time_ge_def Time_le_st_ok)

lemma attr_day_ok: "ClassTime_at h a = Some x \<Longrightarrow> attr_day a h = (Inr (day x), h)"
  by (auto simp: ClassTime_at_Some_iff attr_day_def pbind_def lookup_def pret_def)

lemma attr_start_time_ok:
  "ClassTime_at h a = Some x \<Longrightarrow>
     \<exists>s. attr_start_time a h = (Inr s, h) \<and> Time_at h s = Some (start_time x)"
  by (auto simp: ClassTime_at_Some_iff attr_start_time_def pbind_def lookup_def pret_def)

lemma attr_end_time_ok:
  "ClassTime_at h a = Some x \<Longrightarrow>
     \<exists>e. attr_end_time a h = (Inr e, h) \<and> Time_at h e = Some (end_time x)"
  by (auto simp: ClassTime_at_Some_iff attr_end_time_def pbind_def lookup_def pret_def)

lemma overlaps_st_ok:
  assumes a: "ClassTime_at h a = Some x" and b: "ClassTime_at h b = Some y"
  shows "overlaps_st a b h = (Inr (overlaps x y), h)"
proof -
  from attr_start_time_ok [OF a] obtain s1 where
    s1: "attr_start_time a h = (Inr s1, h)" "Time_at h s1 = Some (start_time x)" by blast
  from attr_end_time_ok [OF a] obtain e1 where
    e1: "attr_end_time a h = (Inr e1, h)" "Time_at h e1 = Some (end_time x)" by blast
  from attr_start_time_ok [OF b] obtain s2 where
    s2: "attr_start_time b h = (Inr s2, h)" "Time_at h s2 = Some (start_time y)" by blast
  from attr_end_time_ok [OF b] obtain e2 where
    e2: "attr_end_time b h = (Inr e2, h)" "Time_at h e2 = Some (end_time y)" by blast
  show ?thesis
    by (simp add: overlaps_st_def overlaps_def pbind_def pret_def
        attr_day_ok [OF a] attr_day_ok [OF b] s1 e1 s2 e2 Time_ge_st_ok Time_le_st_ok)
qed


lemma attr_times_ok:
  "Class_at h c = Some x \<Longrightarrow>
     \<exists>t. attr_times c h = (Inr t, h) \<and> list_at ClassTime_at h t = Some (times x)"
  by (auto simp: Class_at_Some_iff attr_times_def pbind_def lookup_def pret_def)

lemma list_at_get_list:
  "list_at item_at h a = Some ys \<Longrightarrow>
     \<exists>xs. get_list a h = (Inr xs, h) \<and> list_all2 (\<lambda>x y. item_at h x = Some y) xs ys"
  by (auto simp: list_at_Some_iff get_list_ok)

lemma for_return_Cons_None:
  "body x h = (Inr None, h') \<Longrightarrow> for_return (x # xs) body h = for_return xs body h'"
  by (simp add: pbind_def)

lemma for_return_Cons_Some:
  "body x h = (Inr (Some v), h') \<Longrightarrow> for_return (x # xs) body h = (Inr (Some v), h')"
  by (simp add: pbind_def pret_def)

lemma for_return_times_ok:
  assumes "list_all2 (\<lambda>t x. ClassTime_at h t = Some x) ts xs"
    and nt: "ClassTime_at h new_time = Some y"
  shows "for_return ts (\<lambda>time.
           pbind (overlaps_st time new_time) (\<lambda>b. pret (if b then Some False else None))) h
         = (Inr (if fits_times xs y then None else Some False), h)"
  using assms(1)
proof (induction rule: list_all2_induct)
  case Nil
  show ?case by (simp add: pret_def)
next
  case (Cons t ts x xs)
  let ?body = "\<lambda>time. pbind (overlaps_st time new_time) (\<lambda>b. pret (if b then Some False else None))"
  have step: "?body t h = (Inr (if overlaps x y then Some False else None), h)"
    by (simp add: pbind_Inr [of "overlaps_st t new_time" h, OF overlaps_st_ok [OF Cons.hyps(1) nt]] pret_def)
  show ?case
  proof (cases "overlaps x y")
    case True
    with step have "?body t h = (Inr (Some False), h)" by simp
    then have "for_return (t # ts) ?body h = (Inr (Some False), h)"
      by (rule for_return_Cons_Some)
    with True show ?thesis by simp
  next
    case False
    with step have "?body t h = (Inr None, h)" by simp
    then have "for_return (t # ts) ?body h = for_return ts ?body h"
      by (rule for_return_Cons_None)
    with False Cons.IH show ?thesis by simp
  qed
qed

lemma for_return_schedule_ok:
  assumes "list_all2 (\<lambda>c x. Class_at h c = Some x) cs sched"
    and nt: "ClassTime_at h new_time = Some y"
  shows "for_return cs (\<lambda>c.
           pbind (attr_times c) (\<lambda>c_times.
           pbind (get_list c_times) (\<lambda>ts.
           for_return ts (\<lambda>time.
             pbind (overlaps_st time new_time) (\<lambda>b.
             pret (if b then Some False else None)))))) h
         = (Inr (if fits_schedule sched y then None else Some False), h)"
  using assms(1)
proof (induction rule: list_all2_induct)
  case Nil
  show ?case by (simp add: pret_def)
next
  case (Cons c cs x sched)
  let ?body = "\<lambda>c.
           pbind (attr_times c) (\<lambda>c_times.
           pbind (get_list c_times) (\<lambda>ts.
           for_return ts (\<lambda>time.
             pbind (overlaps_st time new_time) (\<lambda>b.
             pret (if b then Some False else None)))))"
  from attr_times_ok [OF Cons.hyps(1)] obtain t where
    t: "attr_times c h = (Inr t, h)" "list_at ClassTime_at h t = Some (times x)" by blast
  from list_at_get_list [OF t(2)] obtain ts where
    ts: "get_list t h = (Inr ts, h)" "list_all2 (\<lambda>t x. ClassTime_at h t = Some x) ts (times x)"
    by blast
  have step: "?body c h = (Inr (if fits_times (times x) y then None else Some False), h)"
    by (simp add: pbind_Inr [of "attr_times c" h, OF t(1)] pbind_Inr [of "get_list t" h, OF ts(1)] for_return_times_ok [OF ts(2) nt])
  show ?case
  proof (cases "fits_times (times x) y")
    case True
    with step have "?body c h = (Inr None, h)" by simp
    then have "for_return (c # cs) ?body h = for_return cs ?body h"
      by (rule for_return_Cons_None)
    with True Cons.IH show ?thesis by simp
  next
    case False
    with step have "?body c h = (Inr (Some False), h)" by simp
    then have "for_return (c # cs) ?body h = (Inr (Some False), h)"
      by (rule for_return_Cons_Some)
    with False show ?thesis by simp
  qed
qed

lemma for_return_new_times_ok:
  assumes sched: "list_at Class_at h schedule = Some sched"
    and "list_all2 (\<lambda>n y. ClassTime_at h n = Some y) nts ys"
  shows "for_return nts (\<lambda>new_time.
           pbind (get_list schedule) (\<lambda>cs.
           for_return cs (\<lambda>c.
             pbind (attr_times c) (\<lambda>c_times.
             pbind (get_list c_times) (\<lambda>ts.
             for_return ts (\<lambda>time.
               pbind (overlaps_st time new_time) (\<lambda>b.
               pret (if b then Some False else None)))))))) h
         = (Inr (if new_class_time_fits sched ys then None else Some False), h)"
  using assms(2)
proof (induction rule: list_all2_induct)
  case Nil
  show ?case by (simp add: pret_def)
next
  case (Cons n nts y ys)
  let ?body = "\<lambda>new_time.
           pbind (get_list schedule) (\<lambda>cs.
           for_return cs (\<lambda>c.
             pbind (attr_times c) (\<lambda>c_times.
             pbind (get_list c_times) (\<lambda>ts.
             for_return ts (\<lambda>time.
               pbind (overlaps_st time new_time) (\<lambda>b.
               pret (if b then Some False else None)))))))"
  from list_at_get_list [OF sched] obtain cs where
    cs: "get_list schedule h = (Inr cs, h)" "list_all2 (\<lambda>c x. Class_at h c = Some x) cs sched"
    by blast
  have step: "?body n h = (Inr (if fits_schedule sched y then None else Some False), h)"
    by (simp add: pbind_Inr [of "get_list schedule" h, OF cs(1)] for_return_schedule_ok [OF cs(2) Cons.hyps(1)])
  show ?case
  proof (cases "fits_schedule sched y")
    case True
    with step have "?body n h = (Inr None, h)" by simp
    then have "for_return (n # nts) ?body h = for_return nts ?body h"
      by (rule for_return_Cons_None)
    with True Cons.IH show ?thesis by simp
  next
    case False
    with step have "?body n h = (Inr (Some False), h)" by simp
    then have "for_return (n # nts) ?body h = (Inr (Some False), h)"
      by (rule for_return_Cons_Some)
    with False show ?thesis by simp
  qed
qed

lemma new_class_time_fits_st_ok:
  assumes "list_at Class_at h schedule = Some sched"
    and "list_at ClassTime_at h new_times = Some ys"
  shows "new_class_time_fits_st schedule new_times h = (Inr (new_class_time_fits sched ys), h)"
proof -
  from list_at_get_list [OF assms(2)] obtain nts where
    nts: "get_list new_times h = (Inr nts, h)"
      "list_all2 (\<lambda>n y. ClassTime_at h n = Some y) nts ys"
    by blast
  show ?thesis
    unfolding new_class_time_fits_st_def
    by (simp add: pbind_Inr [of "get_list new_times" h, OF nts(1)]
        pbind_Inr [of "for_return nts body" h for body, OF for_return_new_times_ok [OF assms(1) nts(2)]]
        pret_def)
qed


lemma keeps_refl: "keeps h h"
  by (simp add: keeps_def)

lemma keeps_trans: "keeps h1 h2 \<Longrightarrow> keeps h2 h3 \<Longrightarrow> keeps h1 h3"
  by (auto simp: keeps_def)

lemma keeps_append: "keeps h (h @ zs)"
  by (simp add: keeps_def nth_append)

lemma keeps_keeps_but: "keeps h h' \<Longrightarrow> keeps_but l h h'"
  by (simp add: keeps_def keeps_but_def)

lemma keeps_but_fresh: "keeps_but l h h' \<Longrightarrow> length h \<le> l \<Longrightarrow> keeps h h'"
  by (auto simp: keeps_def keeps_but_def)

lemma keeps_but_trans: "keeps_but l h1 h2 \<Longrightarrow> keeps_but l h2 h3 \<Longrightarrow> keeps_but l h1 h3"
  by (auto simp: keeps_but_def)

lemma keeps_but_update: "keeps_but l h (h[l := v])"
  by (simp add: keeps_but_def)

lemma keeps_keeps_but_trans: "keeps b h \<Longrightarrow> keeps_but l h h' \<Longrightarrow> length b \<le> l \<Longrightarrow> keeps b h'"
  by (auto simp: keeps_def keeps_but_def)

lemma Time_at_keeps: "keeps h h' \<Longrightarrow> Time_at h a = Some x \<Longrightarrow> Time_at h' a = Some x"
  by (auto simp: Time_at_Some_iff keeps_def)

lemma ClassTime_at_keeps:
  "keeps h h' \<Longrightarrow> ClassTime_at h a = Some x \<Longrightarrow> ClassTime_at h' a = Some x"
  unfolding ClassTime_at_Some_iff
  by (auto simp: keeps_def dest: Time_at_keeps [unfolded keeps_def, OF conjI])

lemma list_at_keeps:
  assumes "\<And>a x. item_at h a = Some x \<Longrightarrow> item_at h' a = Some x"
    and "keeps h h'" and "list_at item_at h a = Some xs"
  shows "list_at item_at h' a = Some xs"
proof -
  from assms(3) obtain as where
    as: "a < length h" "h ! a = PyList as" "list_all2 (\<lambda>x y. item_at h x = Some y) as xs"
    by (auto simp: list_at_Some_iff)
  from as(3) have "list_all2 (\<lambda>x y. item_at h' x = Some y) as xs"
    by (rule list_all2_mono) (rule assms(1))
  with as(1,2) assms(2) show ?thesis
    by (auto simp: list_at_Some_iff keeps_def)
qed

lemma option_at_keeps:
  "keeps h h' \<Longrightarrow> list_at ClassTime_at h a = Some xs \<Longrightarrow> list_at ClassTime_at h' a = Some xs"
  by (rule list_at_keeps [where item_at = ClassTime_at]) (auto intro: ClassTime_at_keeps)

lemma class_rep_at: "keeps b h \<Longrightarrow> class_rep b h a c \<Longrightarrow> Class_at h a = Some c"
  by (auto simp: class_rep_def Class_at_Some_iff intro: option_at_keeps)

lemma sched_rep_at:
  assumes "keeps b h" and "sched_rep b h a s"
  shows "list_at Class_at h a = Some s"
proof -
  from assms(2) obtain cls where
    cls: "a < length h" "h ! a = PyList cls" "list_all2 (class_rep b h) cls s"
    by (auto simp: sched_rep_def)
  from cls(3) have "list_all2 (\<lambda>x y. Class_at h x = Some y) cls s"
    by (rule list_all2_mono) (rule class_rep_at [OF assms(1)])
  with cls(1,2) show ?thesis by (auto simp: list_at_Some_iff)
qed

lemma scheds_rep_at:
  assumes "keeps b h" and "scheds_rep b h a ss"
  shows "list_at (list_at Class_at) h a = Some ss"
proof -
  from assms(2) obtain sl where
    sl: "a < length h" "h ! a = PyList sl" "list_all2 (sched_rep b h) sl ss"
    by (auto simp: scheds_rep_def)
  from sl(3) have "list_all2 (\<lambda>x y. list_at Class_at h x = Some y) sl ss"
    by (rule list_all2_mono) (rule sched_rep_at [OF assms(1)])
  with sl(1,2) show ?thesis by (auto simp: list_at_Some_iff)
qed

lemma class_rep_keeps_but:
  "class_rep b h a c \<Longrightarrow> keeps_but l h h' \<Longrightarrow> a \<noteq> l \<Longrightarrow> class_rep b h' a c"
  by (auto simp: class_rep_def keeps_but_def)

lemma class_reps_keeps_but:
  assumes "list_all2 (class_rep b h) cls s" and "keeps_but l h h'"
    and "l < length h \<Longrightarrow> \<exists>xs. h ! l = PyList xs"
  shows "list_all2 (class_rep b h') cls s"
  using assms(1)
proof (rule list_all2_mono)
  fix a c
  assume rep: "class_rep b h a c"
  then have "a \<noteq> l" using assms(3) by (auto simp: class_rep_def)
  with rep assms(2) show "class_rep b h' a c" by (rule class_rep_keeps_but)
qed

lemma sched_rep_keeps_but:
  assumes "sched_rep b h a s" and "keeps_but l h h'" and "a \<noteq> l"
    and "l < length h \<Longrightarrow> \<exists>xs. h ! l = PyList xs"
  shows "sched_rep b h' a s"
proof -
  from assms(1) obtain cls where
    cls: "a < length h" "h ! a = PyList cls" "list_all2 (class_rep b h) cls s"
    by (auto simp: sched_rep_def)
  from cls(3) assms(2,4) have "list_all2 (class_rep b h') cls s"
    by (rule class_reps_keeps_but)
  with cls(1,2) assms(2,3) show ?thesis
    by (auto simp: sched_rep_def keeps_but_def)
qed

lemma sched_rep_keeps: "sched_rep b h a s \<Longrightarrow> keeps h h' \<Longrightarrow> sched_rep b h' a s"
  by (rule sched_rep_keeps_but [where l = "length h"])
     (auto simp: keeps_keeps_but sched_rep_def)

lemma alloc_ok: "alloc v h = (Inr (length h), h @ [v])"
  by (simp add: alloc_def)

lemma list_append_ok:
  "l < length h \<Longrightarrow> h ! l = PyList xs \<Longrightarrow>
     list_append l x h = (Inr (), h[l := PyList (xs @ [x])])"
  by (simp add: list_append_def pbind_def lookup_def)

lemma list_copy_ok:
  "l < length h \<Longrightarrow> h ! l = PyList xs \<Longrightarrow> list_copy l h = (Inr (length h), h @ [PyList xs])"
  by (simp add: list_copy_def pbind_def lookup_def alloc_def)

lemma list_add_ok:
  "l < length h \<Longrightarrow> h ! l = PyList xs \<Longrightarrow> r < length h \<Longrightarrow> h ! r = PyList ys \<Longrightarrow>
     list_add l r h = (Inr (length h), h @ [PyList (xs @ ys)])"
  by (simp add: list_add_def pbind_def lookup_def alloc_def)

lemma attr_name_ok:
  "a < length h \<Longrightarrow> h ! a = UnrealizedClassObj n t \<Longrightarrow> attr_name a h = (Inr n, h)"
  by (simp add: attr_name_def pbind_def lookup_def pret_def)

lemma attr_time_options_ok:
  "a < length h \<Longrightarrow> h ! a = UnrealizedClassObj n t \<Longrightarrow> attr_time_options a h = (Inr t, h)"
  by (simp add: attr_time_options_def pbind_def lookup_def pret_def)

lemma for_each_Cons:
  "body x h = (Inr u, h') \<Longrightarrow> for_each (x # xs) body h = for_each xs body h'"
  by (simp add: pbind_def)


lemma fitting_loop_st_ok:
  assumes os: "list_all2 (\<lambda>o' x. list_at ClassTime_at b o' = Some x) os xs"
    and c: "c < length b" "b ! c = UnrealizedClassObj nm t"
    and F: "length b \<le> F" "schedule \<noteq> F"
  shows "keeps b h \<Longrightarrow> F < length h \<Longrightarrow> h ! F = PyList cls \<Longrightarrow>
         list_all2 (class_rep b h) cls acc \<Longrightarrow> sched_rep b h schedule sch \<Longrightarrow>
         \<exists>h' cls'.
           for_each os (\<lambda>time_option.
              pbind (new_class_time_fits_st schedule time_option) (\<lambda>fits.
              if fits
              then pbind (attr_name c) (\<lambda>n.
                   pbind (alloc (ClassObj n time_option)) (\<lambda>cl.
                   list_append F cl))
              else pret ())) h = (Inr (), h')
           \<and> keeps_but F h h' \<and> h' ! F = PyList cls'
           \<and> list_all2 (class_rep b h') cls' (fitting_loop sch nm xs acc)"
  using os
proof (induction arbitrary: h cls acc rule: list_all2_induct)
  case Nil
  then show ?case by (auto simp: pret_def keeps_but_def)
next
  case (Cons o' os x xs)
  let ?body = "\<lambda>time_option.
              pbind (new_class_time_fits_st schedule time_option) (\<lambda>fits.
              if fits
              then pbind (attr_name c) (\<lambda>n.
                   pbind (alloc (ClassObj n time_option)) (\<lambda>cl.
                   list_append F cl))
              else pret ())"
  note kb = \<open>keeps b h\<close> and Fh = \<open>F < length h\<close> and hF = \<open>h ! F = PyList cls\<close>
    and reps = \<open>list_all2 (class_rep b h) cls acc\<close> and srep = \<open>sched_rep b h schedule sch\<close>
  have fits: "new_class_time_fits_st schedule o' h = (Inr (new_class_time_fits sch x), h)"
    by (rule new_class_time_fits_st_ok [OF sched_rep_at [OF kb srep] option_at_keeps [OF kb Cons.hyps(1)]])
  show ?case
  proof (cases "new_class_time_fits sch x")
    case False
    have "?body o' h = (Inr (), h)"
      by (simp add: pbind_Inr [of "new_class_time_fits_st schedule o'" h, OF fits] False pret_def)
    then have run: "for_each (o' # os) ?body h = for_each os ?body h"
      by (rule for_each_Cons)
    from Cons.IH [OF kb Fh hF reps srep] False show ?thesis
      unfolding run by simp
  next
    case True
    let ?cl = "length h"
    let ?h2 = "h @ [ClassObj nm o']"
    let ?h3 = "?h2[F := PyList (cls @ [?cl])]"
    from c kb have ch: "c < length h" "h ! c = UnrealizedClassObj nm t"
      by (auto simp: keeps_def)
    have app: "list_append F ?cl ?h2 = (Inr (), ?h3)"
      using Fh hF by (intro list_append_ok) (simp_all add: nth_append)
    have "?body o' h = (Inr (), ?h3)"
      by (simp add: pbind_Inr [of "new_class_time_fits_st schedule o'" h, OF fits] True
          pbind_Inr [of "attr_name c" h, OF attr_name_ok [OF ch]]
          pbind_Inr [of "alloc v" h for v, OF alloc_ok] app)
    then have run: "for_each (o' # os) ?body h = for_each os ?body ?h3"
      by (rule for_each_Cons)
    have kbut: "keeps_but F h ?h3"
      by (auto simp: keeps_but_def nth_append)
    have kb3: "keeps b ?h3"
      using kb kbut F(1) by (rule keeps_keeps_but_trans)
    have F3: "F < length ?h3" using Fh by simp
    have hF3: "?h3 ! F = PyList (cls @ [?cl])" using Fh by simp
    have old: "list_all2 (class_rep b ?h3) cls acc"
      using reps kbut by (rule class_reps_keeps_but) (simp add: hF)
    have new: "class_rep b ?h3 ?cl \<lparr>name = nm, times = x\<rparr>"
      using Fh Cons.hyps(1) by (auto simp: class_rep_def nth_append)
    have reps3: "list_all2 (class_rep b ?h3) (cls @ [?cl]) (acc @ [\<lparr>name = nm, times = x\<rparr>])"
      using old new by (simp add: list_all2_appendI)
    have srep3: "sched_rep b ?h3 schedule sch"
      using srep kbut F(2) by (rule sched_rep_keeps_but) (simp add: hF)
    from Cons.IH [OF kb3 F3 hF3 reps3 srep3] obtain h' cls' where
      IH: "for_each os ?body ?h3 = (Inr (), h')" "keeps_but F ?h3 h'" "h' ! F = PyList cls'"
        "list_all2 (class_rep b h') cls' (fitting_loop sch nm xs (acc @ [\<lparr>name = nm, times = x\<rparr>]))"
      by blast
    from kbut IH(2) have "keeps_but F h h'" by (rule keeps_but_trans)
    with IH(1,3,4) True show ?thesis
      unfolding run by auto
  qed
qed

lemma get_fitting_classes_st_ok:
  assumes kb: "keeps b h" and req: "UnrealizedClass_at b c = Some r"
    and srep: "sched_rep b h schedule sch"
  shows "\<exists>h'. get_fitting_classes_st schedule c h = (Inr (length h), h')
           \<and> keeps h h' \<and> sched_rep b h' (length h) (get_fitting_classes sch r)"
proof -
  let ?F = "length h"
  let ?h1 = "h @ [PyList []]"
  from req obtain t where
    c: "c < length b" "b ! c = UnrealizedClassObj (UnrealizedClass.name r) t"
    and t: "list_at (list_at ClassTime_at) b t = Some (time_options r)"
    by (auto simp: UnrealizedClass_at_Some_iff)
  from t obtain os where
    os: "t < length b" "b ! t = PyList os"
      "list_all2 (\<lambda>o' x. list_at ClassTime_at b o' = Some x) os (time_options r)"
    by (auto simp: list_at_Some_iff)
  have kb1: "keeps b ?h1"
    using kb keeps_append by (rule keeps_trans)
  from c os(1,2) kb1 have c1: "c < length ?h1" "?h1 ! c = UnrealizedClassObj (UnrealizedClass.name r) t"
    and t1: "t < length ?h1" "?h1 ! t = PyList os"
    unfolding keeps_def by auto
  from kb have F: "length b \<le> ?F" by (simp add: keeps_def)
  from srep have neq: "schedule \<noteq> ?F" by (auto simp: sched_rep_def)
  have srep1: "sched_rep b ?h1 schedule sch"
    using srep keeps_append by (rule sched_rep_keeps)
  from fitting_loop_st_ok [OF os(3) c F neq kb1, of "[]" "[]" sch] srep1
  obtain h' cls' where
    loop: "for_each os (\<lambda>time_option.
              pbind (new_class_time_fits_st schedule time_option) (\<lambda>fits.
              if fits
              then pbind (attr_name c) (\<lambda>n.
                   pbind (alloc (ClassObj n time_option)) (\<lambda>cl.
                   list_append ?F cl))
              else pret ())) ?h1 = (Inr (), h')"
    and kbut: "keeps_but ?F ?h1 h'" and hF: "h' ! ?F = PyList cls'"
    and reps: "list_all2 (class_rep b h') cls'
                 (fitting_loop sch (UnrealizedClass.name r) (time_options r) [])"
    by auto
  have run: "get_fitting_classes_st schedule c h = (Inr ?F, h')"
    unfolding get_fitting_classes_st_def
    by (simp add: pbind_Inr [of "alloc v" h for v, OF alloc_ok]
        pbind_Inr [of "attr_time_options c" ?h1, OF attr_time_options_ok [OF c1]]
        pbind_Inr [of "get_list t" ?h1, OF get_list_ok [OF t1]]
        pbind_Inr [of "for_each os body" ?h1 for body, OF loop] pret_def)
  have "keeps h h'"
    using kbut by (auto simp: keeps_def keeps_but_def nth_append)
  moreover have "?F < length h'"
    using kbut by (simp add: keeps_but_def)
  ultimately show ?thesis
    using run hF reps by (auto simp: sched_rep_def get_fitting_classes_def)
qed


lemma append_fitting_st_ok:
  assumes N: "length b \<le> N" "schedule \<noteq> N"
  shows "keeps b h \<Longrightarrow> N < length h \<Longrightarrow> h ! N = PyList nl \<Longrightarrow>
         list_all2 (\<lambda>n s. n \<noteq> N \<and> sched_rep b h n s) nl acc \<Longrightarrow>
         sched_rep b h schedule sch \<Longrightarrow> list_all2 (class_rep b h) fcs fcl \<Longrightarrow>
         \<exists>h' nl'.
           for_each fcs (\<lambda>fitting_class.
              pbind (list_copy schedule) (\<lambda>cp.
              pbind (alloc (PyList [fitting_class])) (\<lambda>single.
              pbind (list_add cp single) (\<lambda>extended.
              list_append N extended)))) h = (Inr (), h')
           \<and> keeps_but N h h' \<and> h' ! N = PyList nl'
           \<and> list_all2 (\<lambda>n s. n \<noteq> N \<and> sched_rep b h' n s) nl' (append_fitting sch fcl acc)"
proof (induction fcs arbitrary: fcl h nl acc)
  case Nil
  then show ?case by (auto simp: pret_def keeps_but_def)
next
  case (Cons fc fcs)
  let ?body = "\<lambda>fitting_class.
              pbind (list_copy schedule) (\<lambda>cp.
              pbind (alloc (PyList [fitting_class])) (\<lambda>single.
              pbind (list_add cp single) (\<lambda>extended.
              list_append N extended)))"
  note kb = \<open>keeps b h\<close> and Nh = \<open>N < length h\<close> and hN = \<open>h ! N = PyList nl\<close>
    and nlrep = \<open>list_all2 (\<lambda>n s. n \<noteq> N \<and> sched_rep b h n s) nl acc\<close>
    and srep = \<open>sched_rep b h schedule sch\<close>
  from \<open>list_all2 (class_rep b h) (fc # fcs) fcl\<close> obtain fca fcl' where
    fcl: "fcl = fca # fcl'" and fc: "class_rep b h fc fca"
    and rest: "list_all2 (class_rep b h) fcs fcl'"
    by (auto simp: list_all2_Cons1)
  from srep obtain cls where
    sch: "schedule < length h" "h ! schedule = PyList cls" "list_all2 (class_rep b h) cls sch"
    by (auto simp: sched_rep_def)
  let ?h1 = "h @ [PyList cls]"
  let ?h2 = "?h1 @ [PyList [fc]]"
  let ?h3 = "?h2 @ [PyList (cls @ [fc])]"
  let ?ext = "length ?h2"
  let ?h4 = "?h3[N := PyList (nl @ [?ext])]"
  have copy: "list_copy schedule h = (Inr (length h), ?h1)"
    using sch(1,2) by (rule list_copy_ok)
  have add: "list_add (length h) (length ?h1) ?h2 = (Inr ?ext, ?h3)"
    by (rule list_add_ok) (simp_all add: nth_append)
  have app: "list_append N ?ext ?h3 = (Inr (), ?h4)"
    using Nh hN by (intro list_append_ok) (simp_all add: nth_append)
  have "?body fc h = (Inr (), ?h4)"
    by (simp only: pbind_Inr [of "list_copy schedule" h, OF copy]
        pbind_Inr [of "alloc v" ?h1 for v, OF alloc_ok]
        pbind_Inr [of "list_add (length h) (length ?h1)" ?h2, OF add] app)
  then have run: "for_each (fc # fcs) ?body h = for_each fcs ?body ?h4"
    by (rule for_each_Cons)
  have kbut: "keeps_but N h ?h4"
    by (auto simp: keeps_but_def nth_append)
  have listy: "N < length h \<Longrightarrow> \<exists>xs. h ! N = PyList xs"
    by (simp add: hN)
  have kb4: "keeps b ?h4"
    using kb kbut N(1) by (rule keeps_keeps_but_trans)
  have N4: "N < length ?h4" using Nh by simp
  have hN4: "?h4 ! N = PyList (nl @ [?ext])" using Nh by simp
  have old: "list_all2 (\<lambda>n s. n \<noteq> N \<and> sched_rep b ?h4 n s) nl acc"
    using nlrep
  proof (rule list_all2_mono)
    fix n s
    assume "n \<noteq> N \<and> sched_rep b h n s"
    then show "n \<noteq> N \<and> sched_rep b ?h4 n s"
      using kbut listy by (auto intro: sched_rep_keeps_but)
  qed
  have clsrep: "list_all2 (class_rep b ?h4) (cls @ [fc]) (sch @ [fca])"
  proof -
    have "list_all2 (class_rep b h) (cls @ [fc]) (sch @ [fca])"
      using sch(3) fc by (simp add: list_all2_appendI)
    then show ?thesis using kbut listy by (rule class_reps_keeps_but)
  qed
  have new: "?ext \<noteq> N \<and> sched_rep b ?h4 ?ext (sch @ [fca])"
    using Nh clsrep by (auto simp: sched_rep_def nth_append)
  have nlrep4: "list_all2 (\<lambda>n s. n \<noteq> N \<and> sched_rep b ?h4 n s) (nl @ [?ext]) (acc @ [sch @ [fca]])"
    using old new by (simp add: list_all2_appendI)
  have srep4: "sched_rep b ?h4 schedule sch"
    using srep kbut N(2) listy by (rule sched_rep_keeps_but)
  have rest4: "list_all2 (class_rep b ?h4) fcs fcl'"
    using rest kbut listy by (rule class_reps_keeps_but)
  from Cons.IH [OF kb4 N4 hN4 nlrep4 srep4 rest4] obtain h' nl' where
    IH: "for_each fcs ?body ?h4 = (Inr (), h')" "keeps_but N ?h4 h'" "h' ! N = PyList nl'"
      "list_all2 (\<lambda>n s. n \<noteq> N \<and> sched_rep b h' n s) nl'
         (append_fitting sch fcl' (acc @ [sch @ [fca]]))"
    by blast
  from kbut IH(2) have "keeps_but N h h'" by (rule keeps_but_trans)
  with IH(1,3,4) show ?case
    unfolding run fcl by auto
qed


lemma expand_schedules_st_ok:
  assumes N: "length b \<le> N" and req: "UnrealizedClass_at b c = Some r"
  shows "keeps b h \<Longrightarrow> N < length h \<Longrightarrow> h ! N = PyList nl \<Longrightarrow>
         list_all2 (\<lambda>n s. n \<noteq> N \<and> sched_rep b h n s) nl acc \<Longrightarrow>
         list_all2 (\<lambda>s sch. s \<noteq> N \<and> sched_rep b h s sch) sl ss \<Longrightarrow>
         \<exists>h' nl'.
           for_each sl (\<lambda>schedule.
              pbind (get_fitting_classes_st schedule c) (\<lambda>fitting_classes.
              pbind (get_list fitting_classes) (\<lambda>fcs.
              for_each fcs (\<lambda>fitting_class.
                pbind (list_copy schedule) (\<lambda>cp.
                pbind (alloc (PyList [fitting_class])) (\<lambda>single.
                pbind (list_add cp single) (\<lambda>extended.
                list_append N extended))))))) h = (Inr (), h')
           \<and> keeps_but N h h' \<and> h' ! N = PyList nl'
           \<and> list_all2 (\<lambda>n s. n \<noteq> N \<and> sched_rep b h' n s) nl' (expand_schedules r ss acc)"
proof (induction sl arbitrary: ss h nl acc)
  case Nil
  then show ?case by (auto simp: pret_def keeps_but_def)
next
  case (Cons s sl)
  let ?inner = "\<lambda>schedule fitting_class.
                pbind (list_copy schedule) (\<lambda>cp.
                pbind (alloc (PyList [fitting_class])) (\<lambda>single.
                pbind (list_add cp single) (\<lambda>extended.
                list_append N extended)))"
  let ?body = "\<lambda>schedule.
              pbind (get_fitting_classes_st schedule c) (\<lambda>fitting_classes.
              pbind (get_list fitting_classes) (\<lambda>fcs.
              for_each fcs (?inner schedule)))"
  note kb = \<open>keeps b h\<close> and Nh = \<open>N < length h\<close> and hN = \<open>h ! N = PyList nl\<close>
    and nlrep = \<open>list_all2 (\<lambda>n s. n \<noteq> N \<and> sched_rep b h n s) nl acc\<close>
  from \<open>list_all2 (\<lambda>s sch. s \<noteq> N \<and> sched_rep b h s sch) (s # sl) ss\<close> obtain sch ss' where
    ss: "ss = sch # ss'" and sN: "s \<noteq> N" and srep: "sched_rep b h s sch"
    and rest: "list_all2 (\<lambda>s sch. s \<noteq> N \<and> sched_rep b h s sch) sl ss'"
    by (auto simp: list_all2_Cons1)
  let ?fcl = "get_fitting_classes sch r"
  from get_fitting_classes_st_ok [OF kb req srep] obtain h1 where
    gfc: "get_fitting_classes_st s c h = (Inr (length h), h1)" and k1: "keeps h h1"
    and Frep: "sched_rep b h1 (length h) ?fcl"
    by blast
  from Frep obtain fcs where
    fcs: "length h < length h1" "h1 ! length h = PyList fcs" "list_all2 (class_rep b h1) fcs ?fcl"
    by (auto simp: sched_rep_def)
  have kb1: "keeps b h1" using kb k1 by (rule keeps_trans)
  have N1: "N < length h1" using Nh k1 by (simp add: keeps_def)
  have hN1: "h1 ! N = PyList nl" using Nh hN k1 by (simp add: keeps_def)
  have nlrep1: "list_all2 (\<lambda>n s. n \<noteq> N \<and> sched_rep b h1 n s) nl acc"
    using nlrep
  proof (rule list_all2_mono)
    fix n s
    assume "n \<noteq> N \<and> sched_rep b h n s"
    then show "n \<noteq> N \<and> sched_rep b h1 n s"
      using k1 by (auto intro: sched_rep_keeps)
  qed
  have srep1: "sched_rep b h1 s sch" using srep k1 by (rule sched_rep_keeps)
  from append_fitting_st_ok [OF N sN kb1 N1 hN1 nlrep1 srep1 fcs(3)] obtain h2 nl2 where
    inner: "for_each fcs (?inner s) h1 = (Inr (), h2)" and k2: "keeps_but N h1 h2"
    and hN2: "h2 ! N = PyList nl2"
    and nlrep2: "list_all2 (\<lambda>n s. n \<noteq> N \<and> sched_rep b h2 n s) nl2 (append_fitting sch ?fcl acc)"
    by blast
  have "?body s h = (Inr (), h2)"
    by (simp only: pbind_Inr [of "get_fitting_classes_st s c" h, OF gfc]
        pbind_Inr [of "get_list (length h)" h1, OF get_list_ok [OF fcs(1,2)]] inner)
  then have run: "for_each (s # sl) ?body h = for_each sl ?body h2"
    by (rule for_each_Cons)
  have listy1: "N < length h1 \<Longrightarrow> \<exists>xs. h1 ! N = PyList xs"
    by (simp add: hN1)
  have kb2: "keeps b h2" using kb1 k2 N by (rule keeps_keeps_but_trans)
  have N2: "N < length h2" using N1 k2 by (simp add: keeps_but_def)
  have rest2: "list_all2 (\<lambda>s sch. s \<noteq> N \<and> sched_rep b h2 s sch) sl ss'"
    using rest
  proof (rule list_all2_mono)
    fix n s
    assume "n \<noteq> N \<and> sched_rep b h n s"
    then have "n \<noteq> N" "sched_rep b h1 n s" using k1 by (auto intro: sched_rep_keeps)
    then show "n \<noteq> N \<and> sched_rep b h2 n s"
      using k2 listy1 by (auto intro: sched_rep_keeps_but)
  qed
  from Cons.IH [OF kb2 N2 hN2 nlrep2 rest2] obtain h' nl' where
    IH: "for_each sl ?body h2 = (Inr (), h')" "keeps_but N h2 h'" "h' ! N = PyList nl'"
      "list_all2 (\<lambda>n s. n \<noteq> N \<and> sched_rep b h' n s) nl'
         (expand_schedules r ss' (append_fitting sch ?fcl acc))"
    by blast
  have "keeps_but N h h'"
    using keeps_keeps_but [OF k1] k2 IH(2) by (blast intro: keeps_but_trans)
  with IH(1,3,4) show ?case
    unfolding run ss by auto
qed

lemma for_rebind_Cons:
  "body x v h = (Inr v', h') \<Longrightarrow> for_rebind (x # xs) v body h = for_rebind xs v' body h'"
  by (simp add: pbind_def)

lemma build_loop_st_ok:
  assumes "list_all2 (\<lambda>c r. UnrealizedClass_at b c = Some r) cs rs"
  shows "keeps b h \<Longrightarrow> scheds_rep b h S ss \<Longrightarrow>
         \<exists>S' h'.
           for_rebind cs S (\<lambda>c schedules.
             pbind (alloc (PyList [])) (\<lambda>new_schedules.
             pbind (get_list schedules) (\<lambda>ss.
             pbind (for_each ss (\<lambda>schedule.
                      pbind (get_fitting_classes_st schedule c) (\<lambda>fitting_classes.
                      pbind (get_list fitting_classes) (\<lambda>fcs.
                      for_each fcs (\<lambda>fitting_class.
                        pbind (list_copy schedule) (\<lambda>cp.
                        pbind (alloc (PyList [fitting_class])) (\<lambda>single.
                        pbind (list_add cp single) (\<lambda>extended.
                        list_append new_schedules extended))))))))
               (\<lambda>_. pret new_schedules)))) h = (Inr S', h')
           \<and> keeps h h' \<and> scheds_rep b h' S' (build_loop rs ss)"
  using assms
proof (induction arbitrary: h S ss rule: list_all2_induct)
  case Nil
  then show ?case by (auto simp: pret_def keeps_refl)
next
  case (Cons c cs r rs)
  let ?stage = "\<lambda>c new_schedules schedule.
                      pbind (get_fitting_classes_st schedule c) (\<lambda>fitting_classes.
                      pbind (get_list fitting_classes) (\<lambda>fcs.
                      for_each fcs (\<lambda>fitting_class.
                        pbind (list_copy schedule) (\<lambda>cp.
                        pbind (alloc (PyList [fitting_class])) (\<lambda>single.
                        pbind (list_add cp single) (\<lambda>extended.
                        list_append new_schedules extended))))))"
  let ?body = "\<lambda>c schedules.
             pbind (alloc (PyList [])) (\<lambda>new_schedules.
             pbind (get_list schedules) (\<lambda>ss.
             pbind (for_each ss (?stage c new_schedules))
               (\<lambda>_. pret new_schedules)))"
  note kb = \<open>keeps b h\<close>
  from \<open>scheds_rep b h S ss\<close> obtain sl where
    sl: "S < length h" "h ! S = PyList sl" "list_all2 (sched_rep b h) sl ss"
    by (auto simp: scheds_rep_def)
  let ?N = "length h"
  let ?h1 = "h @ [PyList []]"
  have N: "length b \<le> ?N" using kb by (simp add: keeps_def)
  have kb1: "keeps b ?h1" using kb keeps_append by (rule keeps_trans)
  have S1: "S < length ?h1" "?h1 ! S = PyList sl" using sl(1,2) by (simp_all add: nth_append)
  have sl1: "list_all2 (\<lambda>s sch. s \<noteq> ?N \<and> sched_rep b ?h1 s sch) sl ss"
    using sl(3)
  proof (rule list_all2_mono)
    fix s sch
    assume rep: "sched_rep b h s sch"
    then have "s \<noteq> ?N" by (auto simp: sched_rep_def)
    moreover from rep keeps_append have "sched_rep b ?h1 s sch" by (rule sched_rep_keeps)
    ultimately show "s \<noteq> ?N \<and> sched_rep b ?h1 s sch" by simp
  qed
  from expand_schedules_st_ok [OF N Cons.hyps(1) kb1, of "[]" "[]" sl ss] sl1 obtain h2 nl' where
    stage: "for_each sl (?stage c ?N) ?h1 = (Inr (), h2)" and k2: "keeps_but ?N ?h1 h2"
    and hN2: "h2 ! ?N = PyList nl'"
    and nlrep: "list_all2 (\<lambda>n s. n \<noteq> ?N \<and> sched_rep b h2 n s) nl' (expand_schedules r ss [])"
    by auto
  have "?body c S h = (Inr ?N, h2)"
    by (simp only: pbind_Inr [of "alloc v" h for v, OF alloc_ok]
        pbind_Inr [of "get_list S" ?h1, OF get_list_ok [OF S1]]
        pbind_Inr [of "for_each sl body" ?h1 for body, OF stage] pret_def)
  then have run: "for_rebind (c # cs) S ?body h = for_rebind cs ?N ?body h2"
    by (rule for_rebind_Cons)
  have k: "keeps h h2"
    using k2 by (auto simp: keeps_def keeps_but_def nth_append)
  have kb2: "keeps b h2" using kb k by (rule keeps_trans)
  have "list_all2 (sched_rep b h2) nl' (expand_schedules r ss [])"
    using nlrep by (rule list_all2_mono) simp
  moreover have "?N < length h2" using k2 by (simp add: keeps_but_def)
  ultimately have rep2: "scheds_rep b h2 ?N (expand_schedules r ss [])"
    using hN2 by (auto simp: scheds_rep_def)
  from Cons.IH [OF kb2 rep2] obtain S' h' where
    IH: "for_rebind cs ?N ?body h2 = (Inr S', h')" "keeps h2 h'"
      "scheds_rep b h' S' (build_loop rs (expand_schedules r ss []))"
    by blast
  from k IH(2) have "keeps h h'" by (rule keeps_trans)
  with IH(1,3) show ?case
    unfolding run by auto
qed

text \<open>
  When the argument stands for the list of requests \<open>rs\<close>, the builder on the store
  returns without an error, and the address it returns stands for
  \<open>build_schedules rs\<close>: the properties proved of \<open>build_schedules\<close> on values hold of what
  the statements of the source compute on objects.
\<close>

theorem build_schedules_st_refines:
  assumes "list_at UnrealizedClass_at h class_options = Some rs"
  shows "\<exists>res h'. build_schedules_st class_options h = (Inr res, h')
           \<and> list_at (list_at Class_at) h' res = Some (build_schedules rs)"
proof -
  from assms obtain cs where
    cs: "class_options < length h" "h ! class_options = PyList cs"
      "list_all2 (\<lambda>c r. UnrealizedClass_at h c = Some r) cs rs"
    by (auto simp: list_at_Some_iff)
  let ?h1 = "h @ [PyList []]"
  let ?h2 = "?h1 @ [PyList [length h]]"
  have kb2: "keeps h ?h2"
    by (simp add: keeps_def nth_append)
  have rep: "scheds_rep h ?h2 (length ?h1) [[]]"
    by (simp add: scheds_rep_def sched_rep_def nth_append)
  have co: "class_options < length ?h2" "?h2 ! class_options = PyList cs"
    using cs(1,2) by (simp_all add: nth_append)
  from build_loop_st_ok [OF cs(3) kb2 rep] obtain S' h' where
    loop: "for_rebind cs (length ?h1) (\<lambda>c schedules.
             pbind (alloc (PyList [])) (\<lambda>new_schedules.
             pbind (get_list schedules) (\<lambda>ss.
             pbind (for_each ss (\<lambda>schedule.
                      pbind (get_fitting_classes_st schedule c) (\<lambda>fitting_classes.
                      pbind (get_list fitting_classes) (\<lambda>fcs.
                      for_each fcs (\<lambda>fitting_class.
                        pbind (list_copy schedule) (\<lambda>cp.
                        pbind (alloc (PyList [fitting_class])) (\<lambda>single.
                        pbind (list_add cp single) (\<lambda>extended.
                        list_append new_schedules extended))))))))
               (\<lambda>_. pret new_schedules)))) ?h2 = (Inr S', h')"
    and k: "keeps ?h2 h'" and rep': "scheds_rep h h' S' (build_loop rs [[]])"
    by blast
  have run: "build_schedules_st class_options h = (Inr S', h')"
    unfolding build_schedules_st_def
    by (simp only: pbind_Inr [of "alloc v" h for v, OF alloc_ok]
        pbind_Inr [of "alloc v" ?h1 for v, OF alloc_ok]
        pbind_Inr [of "get_list class_options" ?h2, OF get_list_ok [OF co]] loop)
  have "keeps h h'" using kb2 k by (rule keeps_trans)
  then have "list_at (list_at Class_at) h' S' = Some (build_loop rs [[]])"
    using rep' by (rule scheds_rep_at)
  with run show ?thesis by (auto simp: build_schedules_def)
qed

text \<open>The definitions unfolded to evaluate the builder on a concrete input.\<close>

lemmas at_defs = Time_at_def ClassTime_at_def list_at_def UnrealizedClass_at_def Class_at_def

lemmas eval_defs = build_schedules_def get_fitting_classes_def overlaps_def Time_ge_def Time_le_def
  Time_lt_def Time_eq_def Time_init_def MON_def TUES_def

section \<open>Touching intervals\<close>

text \<open>
  C4. Two intervals that merely touch at an endpoint count as overlapping. On the
  interval (Mon, 09:00, 10:00) and the interval (Mon, 10:00, 11:00) \<open>overlaps\<close> returns
  true; and in general, when two intervals of one weekday, each with start \<open>\<le>\<close> end,
  are such that the first ends at the minute the second starts, \<open>overlaps\<close> returns true
  on them in both argument orders: with the earlier interval as the receiver its end
  lies in the closed range of the later one (the comparison \<open>\<ge>\<close> with the start is
  closed), and with the later interval as the receiver its start lies in the closed range
  of the earlier one (the comparison \<open>\<le>\<close> with the end is closed).
\<close>

theorem touching_counts_as_overlap:
  "overlaps \<lparr>day = MON, start_time = Time_init 9 0, end_time = Time_init 10 0\<rparr>
            \<lparr>day = MON, start_time = Time_init 10 0, end_time = Time_init 11 0\<rparr> = True
   \<and> (day a = day b \<and> mins (end_time a) = mins (start_time b)
        \<and> mins (start_time a) \<le> mins (end_time a) \<and> mins (start_time b) \<le> mins (end_time b)
        \<longrightarrow> overlaps a b \<and> overlaps b a)"
proof (intro conjI impI)
  show "overlaps \<lparr>day = MON, start_time = Time_init 9 0, end_time = Time_init 10 0\<rparr>
            \<lparr>day = MON, start_time = Time_init 10 0, end_time = Time_init 11 0\<rparr> = True"
    by (simp add: overlaps_def Time_ge_def Time_le_def Time_lt_def Time_eq_def Time_init_def)
next
  assume "day a = day b \<and> mins (end_time a) = mins (start_time b)
        \<and> mins (start_time a) \<le> mins (end_time a) \<and> mins (start_time b) \<le> mins (end_time b)"
  then show "overlaps a b" by (simp add: overlaps_iff)
next
  assume "day a = day b \<and> mins (end_time a) = mins (start_time b)
        \<and> mins (start_time a) \<le> mins (end_time a) \<and> mins (start_time b) \<le> mins (end_time b)"
  then show "overlaps b a" by (simp add: overlaps_iff)
qed

text \<open>
  The witness: the two intervals of the claim meet every hypothesis, and \<open>overlaps\<close> is
  true on them with either one as the receiver.
\<close>

theorem touching_counts_as_overlap_witness:
  "day \<lparr>day = MON, start_time = Time_init 9 0, end_time = Time_init 10 0\<rparr>
     = day \<lparr>day = MON, start_time = Time_init 10 0, end_time = Time_init 11 0\<rparr>
   \<and> mins (end_time \<lparr>day = MON, start_time = Time_init 9 0, end_time = Time_init 10 0\<rparr>)
     = mins (start_time \<lparr>day = MON, start_time = Time_init 10 0, end_time = Time_init 11 0\<rparr>)
   \<and> mins (Time_init 9 0) \<le> mins (Time_init 10 0)
   \<and> mins (Time_init 10 0) \<le> mins (Time_init 11 0)
   \<and> overlaps \<lparr>day = MON, start_time = Time_init 9 0, end_time = Time_init 10 0\<rparr>
               \<lparr>day = MON, start_time = Time_init 10 0, end_time = Time_init 11 0\<rparr>
   \<and> overlaps \<lparr>day = MON, start_time = Time_init 10 0, end_time = Time_init 11 0\<rparr>
               \<lparr>day = MON, start_time = Time_init 9 0, end_time = Time_init 10 0\<rparr>"
proof -
  let ?a = "\<lparr>day = MON, start_time = Time_init 9 0, end_time = Time_init 10 0\<rparr>"
  let ?b = "\<lparr>day = MON, start_time = Time_init 10 0, end_time = Time_init 11 0\<rparr>"
  have h: "day ?a = day ?b \<and> mins (end_time ?a) = mins (start_time ?b)
        \<and> mins (start_time ?a) \<le> mins (end_time ?a) \<and> mins (start_time ?b) \<le> mins (end_time ?b)"
    by (simp add: Time_init_def)
  with touching_counts_as_overlap [of ?a ?b] have "overlaps ?a ?b \<and> overlaps ?b ?a"
    by blast
  with h show ?thesis by simp
qed

section \<open>The empty request list\<close>

text \<open>
  C5. On the empty list of requests \<open>build_schedules\<close> returns exactly one schedule,
  the one with no selection.
\<close>

theorem build_schedules_empty_input:
  "build_schedules [] = [[]] \<and> length (build_schedules []) = 1
   \<and> length (hd (build_schedules [])) = 0"
  by (simp add: build_schedules_def)

section \<open>The overlap test is not symmetric\<close>

text \<open>
  C2. The claim is that \<open>overlaps a b = overlaps b a\<close> for intervals of one weekday with
  start \<open>\<le>\<close> end. The test only asks whether an endpoint of the receiver lies in the
  argument, so it misses the receiver that strictly contains its argument: with the
  receiver (Mon, 09:00, 12:00) and the argument (Mon, 10:00, 11:00) it returns false, and
  true with the two exchanged.
\<close>

theorem overlaps_asymmetric_on_nested_intervals:
  "Time_le (Time_init 9 0) (Time_init 12 0) \<and> Time_le (Time_init 10 0) (Time_init 11 0)
   \<and> overlaps \<lparr>day = MON, start_time = Time_init 9 0, end_time = Time_init 12 0\<rparr>
               \<lparr>day = MON, start_time = Time_init 10 0, end_time = Time_init 11 0\<rparr> = False
   \<and> overlaps \<lparr>day = MON, start_time = Time_init 10 0, end_time = Time_init 11 0\<rparr>
               \<lparr>day = MON, start_time = Time_init 9 0, end_time = Time_init 12 0\<rparr> = True"
  by (simp add: eval_defs)

section \<open>Schedules with a nested interval\<close>

text \<open>
  C1. The claim is that no interval pair across two selections of a returned schedule
  overlaps, in either argument order. \<^verbatim>\<open>new_class_time_fits\<close> asks \<^verbatim>\<open>time.overlaps(new_time)\<close>
  with the already selected interval as the receiver, and that test misses a receiver
  that strictly contains its argument. The requests A, with the one option
  (Mon, 09:00, 12:00), and B, with the one option (Mon, 10:00, 11:00), give one schedule
  holding both, although the second interval overlaps the first.
\<close>

theorem nested_interval_schedule_conflicts:
  "build_schedules
     [\<lparr>UnrealizedClass.name = ''A'', time_options =
         [[\<lparr>day = MON, start_time = Time_init 9 0, end_time = Time_init 12 0\<rparr>]]\<rparr>,
      \<lparr>UnrealizedClass.name = ''B'', time_options =
         [[\<lparr>day = MON, start_time = Time_init 10 0, end_time = Time_init 11 0\<rparr>]]\<rparr>]
   = [[\<lparr>name = ''A'', times =
         [\<lparr>day = MON, start_time = Time_init 9 0, end_time = Time_init 12 0\<rparr>]\<rparr>,
       \<lparr>name = ''B'', times =
         [\<lparr>day = MON, start_time = Time_init 10 0, end_time = Time_init 11 0\<rparr>]\<rparr>]]
   \<and> overlaps \<lparr>day = MON, start_time = Time_init 10 0, end_time = Time_init 11 0\<rparr>
               \<lparr>day = MON, start_time = Time_init 9 0, end_time = Time_init 12 0\<rparr> = True"
  by (simp add: eval_defs)

section \<open>Completeness\<close>




section \<open>A request without options\<close>

text \<open>
  C6. If some request of the input has an empty \<open>time_options\<close> list, then
  \<open>build_schedules\<close> returns the empty list of schedules, and the call raises no error:
  on a store where the argument stands for these requests, the statements of the source
  return a list without items.
\<close>

theorem empty_option_list_collapses:
  assumes "r \<in> set rs" and "time_options r = []"
  shows "build_schedules rs = []
         \<and> (list_at UnrealizedClass_at h class_options = Some rs \<longrightarrow>
              (\<exists>res h'. build_schedules_st class_options h = (Inr res, h')
                          \<and> h' ! res = PyList []))"
proof -
  from assms(1) obtain pre post where rs: "rs = pre @ r # post"
    by (auto simp: in_set_conv_decomp)
  have "build_loop (r # post) (build_loop pre [[]]) = []"
    using assms(2) by (simp add: expand_schedules_eq expand_schedules_no_options build_loop_Nil)
  then have none: "build_schedules rs = []"
    unfolding rs build_schedules_def build_loop_append .
  have "\<exists>res h'. build_schedules_st class_options h = (Inr res, h') \<and> h' ! res = PyList []"
    if "list_at UnrealizedClass_at h class_options = Some rs"
  proof -
    from build_schedules_st_refines [OF that] obtain res h' where
      run: "build_schedules_st class_options h = (Inr res, h')"
      and res: "list_at (list_at Class_at) h' res = Some (build_schedules rs)"
      by blast
    from res none have "h' ! res = PyList []"
      by (auto simp: list_at_Some_iff)
    with run show ?thesis by blast
  qed
  with none show ?thesis by blast
qed

text \<open>
  The witness: the request A without options and the request B with the one option
  (Mon, 09:00, 10:00), as values and as nine objects with the list of the two requests at
  address 8.
\<close>

theorem empty_option_list_collapses_witness:
  "build_schedules
     [\<lparr>UnrealizedClass.name = ''A'', time_options = []\<rparr>,
      \<lparr>UnrealizedClass.name = ''B'', time_options =
         [[\<lparr>day = MON, start_time = Time_init 9 0, end_time = Time_init 10 0\<rparr>]]\<rparr>] = []
   \<and> list_at UnrealizedClass_at
       [TimeObj 540, TimeObj 600, ClassTimeObj ''Mon'' 0 1, PyList [2], PyList [3],
        UnrealizedClassObj ''B'' 4, PyList [], UnrealizedClassObj ''A'' 6, PyList [7, 5]] 8
     = Some [\<lparr>UnrealizedClass.name = ''A'', time_options = []\<rparr>,
             \<lparr>UnrealizedClass.name = ''B'', time_options =
               [[\<lparr>day = MON, start_time = Time_init 9 0, end_time = Time_init 10 0\<rparr>]]\<rparr>]
   \<and> (\<exists>res h'. build_schedules_st 8
         [TimeObj 540, TimeObj 600, ClassTimeObj ''Mon'' 0 1, PyList [2], PyList [3],
          UnrealizedClassObj ''B'' 4, PyList [], UnrealizedClassObj ''A'' 6, PyList [7, 5]]
           = (Inr res, h') \<and> h' ! res = PyList [])"
proof -
  let ?a = "\<lparr>UnrealizedClass.name = ''A'', time_options = []\<rparr>"
  let ?rs = "[?a,
      \<lparr>UnrealizedClass.name = ''B'', time_options =
         [[\<lparr>day = MON, start_time = Time_init 9 0, end_time = Time_init 10 0\<rparr>]]\<rparr>]"
  let ?h = "[TimeObj 540, TimeObj 600, ClassTimeObj ''Mon'' 0 1, PyList [2], PyList [3],
        UnrealizedClassObj ''B'' 4, PyList [], UnrealizedClassObj ''A'' 6, PyList [7, 5]]"
  have mem: "?a \<in> set ?rs" by simp
  have empty: "time_options ?a = []" by simp
  have at: "list_at UnrealizedClass_at ?h 8 = Some ?rs"
    by (simp add: at_defs eval_defs)
  show ?thesis
    using at empty_option_list_collapses [OF mem empty, of ?h 8] by blast
qed

section \<open>The cartesian bound\<close>

text \<open>
  C7. The number of schedules \<open>build_schedules\<close> returns is at most the product, over
  the requests, of the number of options of each request.
\<close>

theorem cartesian_upper_bound:
  "length (build_schedules rs) \<le> prod_list (map (\<lambda>r. length (time_options r)) rs)"
proof (induction rs rule: rev_induct)
  case Nil
  show ?case by (simp add: build_schedules_Nil)
next
  case (snoc r rs)
  have "length (build_schedules (rs @ [r])) \<le> length (build_schedules rs) * length (time_options r)"
    by (simp add: build_schedules_snoc length_concat_extensions)
  also have "\<dots> \<le> prod_list (map (\<lambda>r. length (time_options r)) rs) * length (time_options r)"
    using snoc.IH by (rule mult_le_mono1)
  finally show ?case by simp
qed

section \<open>The order of the result\<close>

text \<open>
  C8. The result is a function of the input, and its order is that of the nested
  expansion: the result for the requests followed by one more request \<open>c\<close> lists, for
  each schedule of the result for the requests, in their order there, the extensions of
  that schedule by the fitting options of \<open>c\<close>, in the order of \<open>time_options c\<close>.
\<close>

theorem nested_expansion_order:
  "build_schedules [] = [[]]
   \<and> build_schedules (class_options @ [c]) =
       concat (map (\<lambda>schedule.
                 map (\<lambda>time_option. schedule @ [\<lparr>name = UnrealizedClass.name c, times = time_option\<rparr>])
                   (filter (new_class_time_fits schedule) (time_options c)))
               (build_schedules class_options))"
proof -
  have "extensions c = (\<lambda>schedule.
                 map (\<lambda>time_option. schedule @ [\<lparr>name = UnrealizedClass.name c, times = time_option\<rparr>])
                   (filter (new_class_time_fits schedule) (time_options c)))"
    by (rule ext) (simp add: extensions_def get_fitting_classes_eq)
  then show ?thesis
    by (simp add: build_schedules_Nil build_schedules_snoc)
qed

section \<open>The builder changes no object it was given\<close>

text \<open>
  C9. \<open>build_schedules\<close> changes no object that exists when it is called: whatever the
  store and the argument, and whether the call returns or raises, every object of the
  store before the call is in the store after it, at its address and unchanged. This
  covers the requests, their \<open>time_options\<close> lists, the options and every \<open>ClassTime\<close>
  and \<open>Time\<close>. (The \<open>Class\<close> objects of the result refer to the option lists of the
  input; the call itself writes to none of them.)
\<close>

theorem build_schedules_st_frame:
  assumes "build_schedules_st class_options h = (r, h')"
  shows "length h \<le> length h' \<and> (\<forall>a < length h. h' ! a = h ! a)"
proof -
  have "frame (length h) (build_schedules_st class_options) (\<lambda>_. True)"
    by (rule frame_build_schedules_st)
  with assms have len: "length h \<le> length h'" and tk: "take (length h) h' = take (length h) h"
    by (auto simp: frame_def)
  have "h' ! a = h ! a" if "a < length h" for a
    using that tk by (metis nth_take)
  with len show ?thesis by blast
qed

text \<open>
  The witness: the request A with the option (Mon, 09:00, 10:00) and the request B with
  the options (Mon, 10:00, 11:00) and (Tues, 09:00, 10:00), as fifteen objects; the list
  of the two requests is at address 14. The call returns the list at address 23, which
  holds the one schedule at 28: A with its option and B with its Tuesday option. The
  fifteen objects are unchanged.
\<close>

theorem build_schedules_st_frame_witness:
  "build_schedules_st 14
     [TimeObj 540, TimeObj 600, ClassTimeObj ''Mon'' 0 1, PyList [2], PyList [3],
      UnrealizedClassObj ''A'' 4,
      TimeObj 600, TimeObj 660, ClassTimeObj ''Mon'' 6 7, PyList [8],
      ClassTimeObj ''Tues'' 0 1, PyList [10], PyList [9, 11],
      UnrealizedClassObj ''B'' 12,
      PyList [5, 13]]
   = (Inr 23,
     [TimeObj 540, TimeObj 600, ClassTimeObj ''Mon'' 0 1, PyList [2], PyList [3],
      UnrealizedClassObj ''A'' 4,
      TimeObj 600, TimeObj 660, ClassTimeObj ''Mon'' 6 7, PyList [8],
      ClassTimeObj ''Tues'' 0 1, PyList [10], PyList [9, 11],
      UnrealizedClassObj ''B'' 12,
      PyList [5, 13],
      PyList [], PyList [15], PyList [22], PyList [19], ClassObj ''A'' 3,
      PyList [], PyList [19], PyList [19], PyList [28], PyList [25],
      ClassObj ''B'' 11, PyList [19], PyList [25], PyList [19, 25]])
   \<and> take 15
     [TimeObj 540, TimeObj 600, ClassTimeObj ''Mon'' 0 1, PyList [2], PyList [3],
      UnrealizedClassObj ''A'' 4,
      TimeObj 600, TimeObj 660, ClassTimeObj ''Mon'' 6 7, PyList [8],
      ClassTimeObj ''Tues'' 0 1, PyList [10], PyList [9, 11],
      UnrealizedClassObj ''B'' 12,
      PyList [5, 13],
      PyList [], PyList [15], PyList [22], PyList [19], ClassObj ''A'' 3,
      PyList [], PyList [19], PyList [19], PyList [28], PyList [25],
      ClassObj ''B'' 11, PyList [19], PyList [25], PyList [19, 25]]
     = [TimeObj 540, TimeObj 600, ClassTimeObj ''Mon'' 0 1, PyList [2], PyList [3],
      UnrealizedClassObj ''A'' 4,
      TimeObj 600, TimeObj 660, ClassTimeObj ''Mon'' 6 7, PyList [8],
      ClassTimeObj ''Tues'' 0 1, PyList [10], PyList [9, 11],
      UnrealizedClassObj ''B'' 12,
      PyList [5, 13]]"
proof -
  have run: "build_schedules_st 14
     [TimeObj 540, TimeObj 600, ClassTimeObj ''Mon'' 0 1, PyList [2], PyList [3],
      UnrealizedClassObj ''A'' 4,
      TimeObj 600, TimeObj 660, ClassTimeObj ''Mon'' 6 7, PyList [8],
      ClassTimeObj ''Tues'' 0 1, PyList [10], PyList [9, 11],
      UnrealizedClassObj ''B'' 12,
      PyList [5, 13]]
   = (Inr 23,
     [TimeObj 540, TimeObj 600, ClassTimeObj ''Mon'' 0 1, PyList [2], PyList [3],
      UnrealizedClassObj ''A'' 4,
      TimeObj 600, TimeObj 660, ClassTimeObj ''Mon'' 6 7, PyList [8],
      ClassTimeObj ''Tues'' 0 1, PyList [10], PyList [9, 11],
      UnrealizedClassObj ''B'' 12,
      PyList [5, 13],
      PyList [], PyList [15], PyList [22], PyList [19], ClassObj ''A'' 3,
      PyList [], PyList [19], PyList [19], PyList [28], PyList [25],
      ClassObj ''B'' 11, PyList [19], PyList [25], PyList [19, 25]])"
    by (simp add: store_defs)
  show ?thesis
    using run build_schedules_st_frame [OF run] by simp
qed

section \<open>The empty option\<close>

text \<open>
  C10, as stated, fails when the other requests leave no schedule: with the request A
  holding the empty option and a request B without options, no schedule is returned, so
  none selects the empty option.
\<close>

theorem empty_option_not_always_selected:
  "[] \<in> set (time_options \<lparr>UnrealizedClass.name = ''A'', time_options = [[]]\<rparr>)
   \<and> build_schedules [\<lparr>UnrealizedClass.name = ''A'', time_options = [[]]\<rparr>,
                       \<lparr>UnrealizedClass.name = ''B'', time_options = []\<rparr>] = []
   \<and> \<not> (\<exists>s \<in> set (build_schedules
                      [\<lparr>UnrealizedClass.name = ''A'', time_options = [[]]\<rparr>,
                       \<lparr>UnrealizedClass.name = ''B'', time_options = []\<rparr>]).
           s ! 0 = \<lparr>name = ''A'', times = []\<rparr>)"
  by (simp add: eval_defs)

text \<open>
  C10, amended. The empty option fits every partial schedule, so
  \<open>get_fitting_classes\<close> offers it for every partial schedule; and when
  \<open>build_schedules\<close> returns at least one schedule for requests one of which has the
  empty option, some returned schedule selects the empty option for that request.
\<close>

theorem empty_option_fits:
  "new_class_time_fits schedule []
   \<and> ([] \<in> set (time_options r) \<longrightarrow>
        \<lparr>name = UnrealizedClass.name r, times = []\<rparr> \<in> set (get_fitting_classes schedule r))
   \<and> ([] \<in> set (time_options r) \<longrightarrow> build_schedules (pre @ r # post) \<noteq> [] \<longrightarrow>
        (\<exists>s \<in> set (build_schedules (pre @ r # post)).
           s ! length pre = \<lparr>name = UnrealizedClass.name r, times = []\<rparr>))"
proof (intro conjI impI)
  show "new_class_time_fits schedule []" by simp
next
  assume "[] \<in> set (time_options r)"
  then show "\<lparr>name = UnrealizedClass.name r, times = []\<rparr> \<in> set (get_fitting_classes schedule r)"
    by (auto simp: get_fitting_classes_eq intro!: image_eqI [where x = "[]"])
next
  let ?e = "\<lparr>name = UnrealizedClass.name r, times = []\<rparr>"
  let ?rs = "pre @ r # post"
  assume opt: "[] \<in> set (time_options r)" and ne: "build_schedules ?rs \<noteq> []"
  from ne obtain s where s: "s \<in> set (build_schedules ?rs)"
    by (cases "build_schedules ?rs") auto
  then have sel: "list_all2 selects s ?rs" and clr: "earlier_clear s"
    by (simp_all add: in_build_schedules_iff)
  have len: "length s = length ?rs"
    using sel by (rule list_all2_lengthD)
  let ?s' = "s[length pre := ?e]"
  have "list_all2 selects ?s' (?rs[length pre := r])"
    using sel selects_empty_option [OF opt] by (rule list_all2_update_cong)
  then have "list_all2 selects ?s' ?rs" by simp
  moreover have "earlier_clear ?s'"
    using clr by (rule earlier_clear_update_empty)
  ultimately have "?s' \<in> set (build_schedules ?rs)"
    by (simp add: in_build_schedules_iff)
  moreover have "?s' ! length pre = ?e"
    using len by simp
  ultimately show "\<exists>s \<in> set (build_schedules ?rs). s ! length pre = ?e"
    by blast
qed

text \<open>
  The witness: the request B with the one option (Mon, 09:00, 10:00), then the request A
  with the empty option and the option (Mon, 09:00, 10:00). The one schedule returned
  selects the empty option for A.
\<close>

theorem empty_option_fits_witness:
  "[] \<in> set (time_options
       \<lparr>UnrealizedClass.name = ''A'', time_options =
          [[], [\<lparr>day = MON, start_time = Time_init 9 0, end_time = Time_init 10 0\<rparr>]]\<rparr>)
   \<and> build_schedules
       [\<lparr>UnrealizedClass.name = ''B'', time_options =
          [[\<lparr>day = MON, start_time = Time_init 9 0, end_time = Time_init 10 0\<rparr>]]\<rparr>,
        \<lparr>UnrealizedClass.name = ''A'', time_options =
          [[], [\<lparr>day = MON, start_time = Time_init 9 0, end_time = Time_init 10 0\<rparr>]]\<rparr>] \<noteq> []
   \<and> (\<exists>s \<in> set (build_schedules
       [\<lparr>UnrealizedClass.name = ''B'', time_options =
          [[\<lparr>day = MON, start_time = Time_init 9 0, end_time = Time_init 10 0\<rparr>]]\<rparr>,
        \<lparr>UnrealizedClass.name = ''A'', time_options =
          [[], [\<lparr>day = MON, start_time = Time_init 9 0, end_time = Time_init 10 0\<rparr>]]\<rparr>]).
         s ! 1 = \<lparr>name = ''A'', times = []\<rparr>)"
proof -
  let ?b = "\<lparr>UnrealizedClass.name = ''B'', time_options =
          [[\<lparr>day = MON, start_time = Time_init 9 0, end_time = Time_init 10 0\<rparr>]]\<rparr>"
  let ?a = "\<lparr>UnrealizedClass.name = ''A'', time_options =
          [[], [\<lparr>day = MON, start_time = Time_init 9 0, end_time = Time_init 10 0\<rparr>]]\<rparr>"
  have opt: "[] \<in> set (time_options ?a)" by simp
  have ne: "build_schedules ([?b] @ ?a # []) \<noteq> []"
    by (simp add: eval_defs)
  show ?thesis
    using opt ne empty_option_fits [of "[]" ?a "[?b]" "[]"] by simp
qed

end
